theory Spec2Isabelle
  imports Main
begin

section \<open>JavaScript values, plain objects and errors\<close>

text \<open>
  The resolver of \<^verbatim>\<open>src/ConfigResolver.ts\<close> builds plain option objects
  (\<^verbatim>\<open>prettier.Options\<close>) out of other plain objects. A plain object is a finite
  map from property names to values. The resolver never computes with a number and never
  looks inside a nested object or array: it copies them. The number type is therefore a
  type parameter \<open>'n\<close> (a JavaScript number is a double; every result below holds for
  any representation of it), and a nested object or array is the reference \<open>JRef\<close> to
  it, which is what a shallow copy copies.
\<close>

datatype 'n jsval =
    JUndefined
  | JNull
  | JBool bool
  | JNum 'n
  | JStr string
  | JRef nat

type_synonym 'n object = "string \<rightharpoonup> 'n jsval"

text \<open>
  Reading a property, \<^verbatim>\<open>obj.k\<close>: the value stored under \<open>k\<close>, and
  \<^verbatim>\<open>undefined\<close> when the object has no such property.
\<close>

definition get_prop :: "'n object \<Rightarrow> string \<Rightarrow> 'n jsval" where
  "get_prop obj k = (case obj k of None \<Rightarrow> JUndefined | Some v \<Rightarrow> v)"

text \<open>
  Assigning a property, \<^verbatim>\<open>obj.k = v\<close>: the property exists afterwards, also when
  \<open>v\<close> is \<^verbatim>\<open>undefined\<close>.
\<close>

definition set_prop :: "'n object \<Rightarrow> string \<Rightarrow> 'n jsval \<Rightarrow> 'n object" where
  "set_prop obj k v = obj(k \<mapsto> v)"

text \<open>
  Object spread, \<^verbatim>\<open>{...a, ...b}\<close>: every own property of \<open>b\<close> is written over
  the copy of \<open>a\<close>; a property that \<open>b\<close> lacks keeps the value \<open>a\<close> gave it.
\<close>

definition spread :: "'n object \<Rightarrow> 'n object \<Rightarrow> 'n object" where
  "spread a b = a ++ b"

text \<open>
  What a \<^verbatim>\<open>catch\<close> clause receives and a rejected promise carries. The interface
  \<^verbatim>\<open>IResolveConfigResult\<close> types it as \<^verbatim>\<open>Error\<close>: an object with a name and
  a message, which is truthy.
\<close>

datatype js_error = JsError (err_name: string) (err_message: string)

text \<open>
  An \<^verbatim>\<open>async\<close> method either resolves to a value (\<open>Inr\<close>) or rejects with an
  error (\<open>Inl\<close>); a synchronous call that throws is \<open>Inl\<close> too.
\<close>

type_synonym 'a outcome = "js_error + 'a"

section \<open>The version comparison \<^verbatim>\<open>semver.gte\<close>\<close>

text \<open>
  Line 39 of the resolver calls \<^verbatim>\<open>semver.gte\<close>. The function belongs to the imported
  package \<^verbatim>\<open>semver\<close> and is not part of the sources; this section models it from
  the specification, which describes it as a greater-than-or-equal comparison using
  standard semantic-version ordering: major.minor.patch, pre-release tags sort below
  release. Version strings are ASCII text.
\<close>

datatype pre_identifier = Numeric nat | Alphanumeric string

record SemVer =
  major :: nat
  minor :: nat
  patch :: nat
  prerelease :: "pre_identifier list"
  build :: "string list"

definition MAX_LENGTH :: nat where
  "MAX_LENGTH = 256"

definition MAX_SAFE_INTEGER :: nat where
  "MAX_SAFE_INTEGER = 9007199254740991"

definition is_digit :: "char \<Rightarrow> bool" where
  "is_digit c = (c \<in> set ''0123456789'')"

definition is_letter :: "char \<Rightarrow> bool" where
  "is_letter c = (c \<in> set ''abcdefghijklmnopqrstuvwxyzABCDEFGHIJKLMNOPQRSTUVWXYZ'')"

definition is_identifier_char :: "char \<Rightarrow> bool" where
  "is_identifier_char c = (is_digit c \<or> is_letter c \<or> c = CHR ''-'')"

text \<open>The ASCII white space that \<^verbatim>\<open>String.prototype.trim\<close> removes.\<close>

definition is_space :: "char \<Rightarrow> bool" where
  "is_space c = (c \<in> set [CHR '' '', CHR 0x09, CHR 0x0A, CHR 0x0B, CHR 0x0C, CHR 0x0D])"

definition trim :: "string \<Rightarrow> string" where
  "trim s = rev (dropWhile is_space (rev (dropWhile is_space s)))"

text \<open>\<^verbatim>\<open>s.split(sep)\<close>: the pieces between the separators, empty pieces included.\<close>

fun split_at :: "char \<Rightarrow> string \<Rightarrow> string list" where
  "split_at sep [] = [[]]"
| "split_at sep (c # cs) =
     (if c = sep then [] # split_at sep cs
      else (case split_at sep cs of
              [] \<Rightarrow> [[c]]
            | p # ps \<Rightarrow> (c # p) # ps))"

text \<open>The text before the first separator, and the text after it when there is one.\<close>

definition split_first :: "char \<Rightarrow> string \<Rightarrow> string \<times> string option" where
  "split_first sep s =
     (case dropWhile (\<lambda>c. c \<noteq> sep) s of
        [] \<Rightarrow> (s, None)
      | _ # rest \<Rightarrow> (takeWhile (\<lambda>c. c \<noteq> sep) s, Some rest))"

definition digit_value :: "char \<Rightarrow> nat" where
  "digit_value c = of_char c - 48"

definition to_number :: "string \<Rightarrow> nat" where
  "to_number s = foldl (\<lambda>n c. 10 * n + digit_value c) 0 s"

text \<open>\<^verbatim>\<open>0|[1-9]\d*\<close>\<close>

definition is_numeric_identifier :: "string \<Rightarrow> bool" where
  "is_numeric_identifier s =
     (case s of
        [] \<Rightarrow> False
      | c # cs \<Rightarrow> list_all is_digit s \<and> (c \<noteq> CHR ''0'' \<or> cs = []))"

text \<open>\<^verbatim>\<open>0|[1-9]\d*|\d*[a-zA-Z-][a-zA-Z0-9-]*\<close>\<close>

definition is_prerelease_identifier :: "string \<Rightarrow> bool" where
  "is_prerelease_identifier s =
     (is_numeric_identifier s \<or> (list_all is_identifier_char s \<and> \<not> list_all is_digit s))"

text \<open>\<^verbatim>\<open>[0-9A-Za-z-]+\<close>\<close>

definition is_build_identifier :: "string \<Rightarrow> bool" where
  "is_build_identifier s = (s \<noteq> [] \<and> list_all is_identifier_char s)"

definition to_identifier :: "string \<Rightarrow> pre_identifier" where
  "to_identifier s = (if list_all is_digit s then Numeric (to_number s) else Alphanumeric s)"

definition strip_v :: "string \<Rightarrow> string" where
  "strip_v s = (case s of [] \<Rightarrow> [] | c # cs \<Rightarrow> if c = CHR ''v'' then cs else s)"

text \<open>
  The match of the version pattern: the three numbers, the pre-release identifiers and
  the build identifiers, as text.
\<close>

definition semver_match ::
  "string \<Rightarrow> (string \<times> string \<times> string \<times> string list \<times> string list) option" where
  "semver_match version =
     (let (s, b) = split_first (CHR ''+'') (strip_v (trim version));
          (m, p) = split_first (CHR ''-'') s;
          pre = (case p of None \<Rightarrow> [] | Some t \<Rightarrow> split_at (CHR ''.'') t);
          bld = (case b of None \<Rightarrow> [] | Some t \<Rightarrow> split_at (CHR ''.'') t)
      in (case split_at (CHR ''.'') m of
            [ma, mi, pa] \<Rightarrow>
              if list_all is_numeric_identifier [ma, mi, pa]
                 \<and> list_all is_prerelease_identifier pre
                 \<and> list_all is_build_identifier bld
              then Some (ma, mi, pa, pre, bld)
              else None
          | _ \<Rightarrow> None))"

definition type_error :: "string \<Rightarrow> js_error" where
  "type_error message = JsError ''TypeError'' message"

text \<open>
  Modelled from the spec: \<^verbatim>\<open>new SemVer(version)\<close> of the package \<^verbatim>\<open>semver\<close>, which
  is not part of the sources. The version is built the way the package's strict
  constructor builds it: the string, trimmed, has to read
  \<^verbatim>\<open>v?MAJOR.MINOR.PATCH(-PRERELEASE)?(+BUILD)?\<close>, be at most 256 characters long and
  have numbers up to \<^verbatim>\<open>Number.MAX_SAFE_INTEGER\<close>; for any other string the constructor
  throws a \<^verbatim>\<open>TypeError\<close>.
\<close>

definition SemVer_new :: "string \<Rightarrow> SemVer outcome" where
  "SemVer_new version =
     (if MAX_LENGTH < length version
      then Inl (type_error ''version is longer than 256 characters'')
      else
        (case semver_match version of
           None \<Rightarrow> Inl (type_error (''Invalid Version: '' @ version))
         | Some (ma, mi, pa, pre, bld) \<Rightarrow>
             if MAX_SAFE_INTEGER < to_number ma then Inl (type_error ''Invalid major version'')
             else if MAX_SAFE_INTEGER < to_number mi
             then Inl (type_error ''Invalid minor version'')
             else if MAX_SAFE_INTEGER < to_number pa
             then Inl (type_error ''Invalid patch version'')
             else Inr \<lparr> major = to_number ma, minor = to_number mi, patch = to_number pa,
                        prerelease = map to_identifier pre, build = bld \<rparr>))"

text \<open>Strings compare by character code, as \<^verbatim>\<open>a < b\<close> does on ASCII strings.\<close>

fun string_less :: "string \<Rightarrow> string \<Rightarrow> bool" where
  "string_less [] [] = False"
| "string_less [] (d # ds) = True"
| "string_less (c # cs) [] = False"
| "string_less (c # cs) (d # ds) =
     (if c = d then string_less cs ds else (of_char c :: nat) < of_char d)"

text \<open>
  The comparisons return \<open>-1\<close>, \<open>0\<close> or \<open>1\<close>. A numeric identifier is below an
  alphanumeric one; two numeric ones compare as numbers, two alphanumeric ones as strings.
\<close>

fun compareIdentifiers :: "pre_identifier \<Rightarrow> pre_identifier \<Rightarrow> int" where
  "compareIdentifiers (Numeric a) (Numeric b) = (if a = b then 0 else if a < b then -1 else 1)"
| "compareIdentifiers (Numeric a) (Alphanumeric b) = -1"
| "compareIdentifiers (Alphanumeric a) (Numeric b) = 1"
| "compareIdentifiers (Alphanumeric a) (Alphanumeric b) =
     (if a = b then 0 else if string_less a b then -1 else 1)"

definition compareNumbers :: "nat \<Rightarrow> nat \<Rightarrow> int" where
  "compareNumbers a b = (if a = b then 0 else if a < b then -1 else 1)"

definition compareMain :: "SemVer \<Rightarrow> SemVer \<Rightarrow> int" where
  "compareMain a b =
     (if compareNumbers (major a) (major b) \<noteq> 0 then compareNumbers (major a) (major b)
      else if compareNumbers (minor a) (minor b) \<noteq> 0 then compareNumbers (minor a) (minor b)
      else compareNumbers (patch a) (patch b))"

text \<open>
  Walking two pre-release lists: the first difference decides, and a list that ends first
  is the lower one.
\<close>

fun compareIdentifierLists :: "pre_identifier list \<Rightarrow> pre_identifier list \<Rightarrow> int" where
  "compareIdentifierLists [] [] = 0"
| "compareIdentifierLists (a # as) [] = 1"
| "compareIdentifierLists [] (b # bs) = -1"
| "compareIdentifierLists (a # as) (b # bs) =
     (if a = b then compareIdentifierLists as bs else compareIdentifiers a b)"

text \<open>A version with a pre-release tag sorts below the same version without one.\<close>

definition comparePre :: "SemVer \<Rightarrow> SemVer \<Rightarrow> int" where
  "comparePre a b =
     (if prerelease a \<noteq> [] \<and> prerelease b = [] then -1
      else if prerelease a = [] \<and> prerelease b \<noteq> [] then 1
      else if prerelease a = [] \<and> prerelease b = [] then 0
      else compareIdentifierLists (prerelease a) (prerelease b))"

definition compare :: "SemVer \<Rightarrow> SemVer \<Rightarrow> int" where
  "compare a b = (if compareMain a b \<noteq> 0 then compareMain a b else comparePre a b)"

text \<open>
  Modelled from the spec: \<^verbatim>\<open>semver.gte\<close> of the package \<^verbatim>\<open>semver\<close>, which is not
  part of the sources: the greater-than-or-equal comparison in semantic-version ordering.
  \<^verbatim>\<open>gte(a, b)\<close> is \<^verbatim>\<open>new SemVer(a).compare(new SemVer(b)) >= 0\<close>, so a string that
  is not a version makes the comparison throw what its constructor throws, the first
  argument's before the second's.
\<close>

definition semver_gte :: "string \<Rightarrow> string \<Rightarrow> bool outcome" where
  "semver_gte a b =
     (case SemVer_new a of
        Inl e \<Rightarrow> Inl e
      | Inr va \<Rightarrow>
          (case SemVer_new b of
             Inl e \<Rightarrow> Inl e
           | Inr vb \<Rightarrow> Inr (0 \<le> compare va vb)))"

section \<open>The collaborators of the resolver\<close>

text \<open>
  \<^verbatim>\<open>prettier.resolveConfig(filePath, options)\<close> searches the file system for a
  project configuration. The resolver sees one of three outcomes: a configuration object,
  \<^verbatim>\<open>null\<close> when none was found (\<open>None\<close>), or a rejection. The capability is a
  parameter of every operation below, so that each result holds for whatever the file
  system holds.
\<close>

type_synonym 'n discovery = "string \<Rightarrow> 'n object option \<Rightarrow> 'n object option outcome"

text \<open>The discoveries of the examples: one that returns a given value, one that fails.\<close>

definition discovery_returns :: "'n object option \<Rightarrow> 'n discovery" where
  [simp]: "discovery_returns c filePath opts = Inr c"

definition discovery_fails :: "js_error \<Rightarrow> 'n discovery" where
  [simp]: "discovery_fails e filePath opts = Inl e"

text \<open>The logging service is the list of the lines written to it so far.\<close>

type_synonym LoggingService = "string list"

text \<open>
  Modelled from the spec: \<^verbatim>\<open>LoggingService.logInfo\<close> (\<^verbatim>\<open>./LoggingService\<close>) is not
  part of the sources. The specification gives \<^verbatim>\<open>logInfo(message)\<close> as a write-only
  sink that accepts a string, appends it, returns nothing and never fails observably.
\<close>

definition logInfo :: "LoggingService \<Rightarrow> string \<Rightarrow> LoggingService" where
  "logInfo sink message = sink @ [message]"

section \<open>The resolver\<close>

text \<open>
  \<^verbatim>\<open>IResolveConfigResult\<close> (lines 5 to 8). The type parameter is what stands for an
  options object: the object itself here, its address in the store model further down.
\<close>

record 'c IResolveConfigResult =
  config :: "'c option"
  error :: "js_error option"

text \<open>
  \<^verbatim>\<open>RangeFormattingOptions\<close> (lines 10 to 13). The interface asks for the numbers
  \<^verbatim>\<open>rangeStart\<close> and \<^verbatim>\<open>rangeEnd\<close>; TypeScript interfaces are open, so an object
  with more properties is a \<^verbatim>\<open>RangeFormattingOptions\<close> too, and line 80 spreads every
  own property of the object it is given. The argument is therefore an object, and
  \<open>is_RangeFormattingOptions\<close> says that an object has what the interface asks for.
\<close>

type_synonym 'n RangeFormattingOptions = "'n object"

definition is_RangeFormattingOptions :: "'n object \<Rightarrow> bool" where
  "is_RangeFormattingOptions obj =
     ((case obj ''rangeStart'' of Some (JNum a) \<Rightarrow> True | _ \<Rightarrow> False)
      \<and> (case obj ''rangeEnd'' of Some (JNum b) \<Rightarrow> True | _ \<Rightarrow> False))"

text \<open>
  The return type of \<^verbatim>\<open>getPrettierOptions\<close>,
  \<^verbatim>\<open>{ options?: Partial<prettier.Options>; error?: Error }\<close>.
\<close>

record 'c PrettierOptionsResult =
  options :: "'c option"
  error :: "js_error option"

text \<open>The class holds the logging service it was constructed with.\<close>

record ConfigResolver =
  loggingService :: LoggingService

text \<open>
  \<^verbatim>\<open>resolveConfig\<close> (lines 104 to 114): the whole body is a \<^verbatim>\<open>try\<close> whose
  \<^verbatim>\<open>catch\<close> returns the error in the result.
\<close>

definition resolveConfig ::
  "'n discovery \<Rightarrow> string \<Rightarrow> 'n object option \<Rightarrow> 'n object IResolveConfigResult outcome" where
  "resolveConfig prettier_resolveConfig filePath opts =
     (case prettier_resolveConfig filePath opts of
        Inr cfg \<Rightarrow> Inr \<lparr> config = cfg, error = None \<rparr>
      | Inl err \<Rightarrow> Inr \<lparr> config = None, error = Some err \<rparr>)"

text \<open>\<^verbatim>\<open>checkHasPrettierConfig\<close> (lines 91 to 97).\<close>

definition checkHasPrettierConfig :: "'n discovery \<Rightarrow> string \<Rightarrow> bool outcome" where
  "checkHasPrettierConfig prettier_resolveConfig filePath =
     (case resolveConfig prettier_resolveConfig filePath None of
        Inl e \<Rightarrow> Inl e
      | Inr r \<Rightarrow>
          (case IResolveConfigResult.error r of
             Some err \<Rightarrow> Inl err
           | None \<Rightarrow> Inr (config r \<noteq> None)))"

text \<open>
  Lines 42 to 64, the body of \<^verbatim>\<open>if (fallbackToVSCodeConfig)\<close>: seventeen
  assignments to \<^verbatim>\<open>vsOpts\<close>, in the order of the source.
\<close>

definition assign_vsOpts :: "'n object \<Rightarrow> 'n object \<Rightarrow> bool \<Rightarrow> 'n object" where
  "assign_vsOpts vsOpts0 vsCodeConfig usePrettierV2Defaults =
     (let vsOpts = set_prop vsOpts0 ''arrowParens''
            (if usePrettierV2Defaults then get_prop vsCodeConfig ''arrowParens''
             else JStr ''avoid'');
          vsOpts = set_prop vsOpts ''bracketSpacing'' (get_prop vsCodeConfig ''bracketSpacing'');
          vsOpts = set_prop vsOpts ''endOfLine''
            (if usePrettierV2Defaults then get_prop vsCodeConfig ''endOfLine''
             else JStr ''auto'');
          vsOpts = set_prop vsOpts ''htmlWhitespaceSensitivity''
            (get_prop vsCodeConfig ''htmlWhitespaceSensitivity'');
          vsOpts = set_prop vsOpts ''insertPragma'' (get_prop vsCodeConfig ''insertPragma'');
          vsOpts = set_prop vsOpts ''jsxBracketSameLine''
            (get_prop vsCodeConfig ''jsxBracketSameLine'');
          vsOpts = set_prop vsOpts ''jsxSingleQuote'' (get_prop vsCodeConfig ''jsxSingleQuote'');
          vsOpts = set_prop vsOpts ''printWidth'' (get_prop vsCodeConfig ''printWidth'');
          vsOpts = set_prop vsOpts ''proseWrap'' (get_prop vsCodeConfig ''proseWrap'');
          vsOpts = set_prop vsOpts ''quoteProps'' (get_prop vsCodeConfig ''quoteProps'');
          vsOpts = set_prop vsOpts ''requirePragma'' (get_prop vsCodeConfig ''requirePragma'');
          vsOpts = set_prop vsOpts ''semi'' (get_prop vsCodeConfig ''semi'');
          vsOpts = set_prop vsOpts ''singleQuote'' (get_prop vsCodeConfig ''singleQuote'');
          vsOpts = set_prop vsOpts ''tabWidth'' (get_prop vsCodeConfig ''tabWidth'');
          vsOpts = set_prop vsOpts ''trailingComma''
            (if usePrettierV2Defaults then get_prop vsCodeConfig ''trailingComma''
             else JStr ''none'');
          vsOpts = set_prop vsOpts ''useTabs'' (get_prop vsCodeConfig ''useTabs'');
          vsOpts = set_prop vsOpts ''vueIndentScriptAndStyle''
            (get_prop vsCodeConfig ''vueIndentScriptAndStyle'')
      in vsOpts)"

definition fallback_message :: string where
  "fallback_message =
     ''No local configuration (i.e. .prettierrc or .editorconfig) detected, falling back to VS Code configuration''"

definition detected_message :: string where
  "detected_message =
     ''Detected local configuration (i.e. .prettierrc or .editorconfig), VS Code configuration will not be used''"

text \<open>
  \<^verbatim>\<open>getPrettierOptions\<close> (lines 18 to 85). The method returns its outcome and the
  resolver with the logging service as the call left it. The comparison of line 39 is
  outside every \<^verbatim>\<open>try\<close>: when it throws, the method rejects.
\<close>

definition getPrettierOptions ::
  "'n discovery \<Rightarrow> ConfigResolver \<Rightarrow> string \<Rightarrow> string \<Rightarrow> 'n object \<Rightarrow> string \<Rightarrow> 'n object
     \<Rightarrow> 'n RangeFormattingOptions option
     \<Rightarrow> 'n object PrettierOptionsResult outcome \<times> ConfigResolver" where
  "getPrettierOptions prettier_resolveConfig this fileName parser vsCodeConfig prettierVersion
       resolveConfigOptions rangeFormattingOptions =
     (case resolveConfig prettier_resolveConfig fileName (Some resolveConfigOptions) of
        Inl e \<Rightarrow> (Inl e, this)
      | Inr r \<Rightarrow>
          (case IResolveConfigResult.error r of
             Some err \<Rightarrow> (Inr \<lparr> options = None, error = Some err \<rparr>, this)
           | None \<Rightarrow>
               (let configOptions = config r;
                    vsOpts = Map.empty;
                    fallbackToVSCodeConfig = (configOptions = None)
                in (case semver_gte prettierVersion ''2.0.0'' of
                      Inl e \<Rightarrow> (Inl e, this)
                    | Inr usePrettierV2Defaults \<Rightarrow>
                        (let vsOpts =
                               (if fallbackToVSCodeConfig
                                then assign_vsOpts vsOpts vsCodeConfig usePrettierV2Defaults
                                else vsOpts);
                             this' = this \<lparr> loggingService :=
                               logInfo (loggingService this)
                                 (if fallbackToVSCodeConfig then fallback_message
                                  else detected_message) \<rparr>;
                             opts =
                               spread
                                 (spread
                                    (spread
                                       (spread Map.empty
                                          (if fallbackToVSCodeConfig then vsOpts else Map.empty))
                                       [''filepath'' \<mapsto> JStr fileName, ''parser'' \<mapsto> JStr parser])
                                    (case rangeFormattingOptions of
                                       None \<Rightarrow> Map.empty
                                     | Some rfo \<Rightarrow> rfo))
                                 (case configOptions of None \<Rightarrow> Map.empty | Some c \<Rightarrow> c)
                         in (Inr \<lparr> options = Some opts, error = None \<rparr>, this'))))))"


text \<open>
  The property \<open>k\<close> of an optional layer of the merge: what the layer defines for
  \<open>k\<close>, nothing when the layer is absent (\<^verbatim>\<open>undefined\<close> or \<^verbatim>\<open>null\<close>, spread as
  \<^verbatim>\<open>{}\<close>) or lacks the property.
\<close>

definition own_prop :: "'n object option \<Rightarrow> string \<Rightarrow> 'n jsval option" where
  "own_prop layer k = (case layer of None \<Rightarrow> None | Some obj \<Rightarrow> obj k)"

text \<open>
  The value of \<open>k\<close> after an optional layer is spread over a record that holds \<open>v\<close>
  for \<open>k\<close>: the layer's value when the layer defines \<open>k\<close>, and \<open>v\<close> otherwise.
\<close>

definition overridden_by :: "'n object option \<Rightarrow> string \<Rightarrow> 'n jsval \<Rightarrow> 'n jsval" where
  "overridden_by layer k v = (case own_prop layer k of None \<Rightarrow> v | Some x \<Rightarrow> x)"

text \<open>
  The property \<open>k\<close> of the options that a call returned; nothing when the call returned
  no options.
\<close>

definition returned_prop ::
  "'n object PrettierOptionsResult outcome \<times> ConfigResolver \<Rightarrow> string \<Rightarrow> 'n jsval option" where
  "returned_prop r k =
     (case fst r of
        Inl e \<Rightarrow> None
      | Inr res \<Rightarrow> (case options res of None \<Rightarrow> None | Some opts \<Rightarrow> opts k))"

text \<open>
  The specification's ordering, written out for a release \<open>ma.mi.pa\<close> as the bound: a
  version is at least the release when its major.minor.patch triple is above the bound's,
  or equal to it with no pre-release tag (a pre-release sorts below its release).
\<close>

definition at_least_release :: "SemVer \<Rightarrow> nat \<Rightarrow> nat \<Rightarrow> nat \<Rightarrow> bool" where
  "at_least_release sv ma mi pa =
     (ma < major sv
      \<or> (major sv = ma
          \<and> (mi < minor sv
              \<or> (minor sv = mi \<and> (pa < patch sv \<or> (patch sv = pa \<and> prerelease sv = []))))))"

section \<open>The resolver on a store of objects\<close>

text \<open>
  JavaScript passes objects by reference, so whether a call changes an argument is a
  question about a store. Here the option objects live in a store, at addresses; the
  arguments \<^verbatim>\<open>vsCodeConfig\<close>, \<^verbatim>\<open>resolveConfigOptions\<close> and
  \<^verbatim>\<open>rangeFormattingOptions\<close> and the discovered configuration are addresses, and every
  object literal of the source allocates. The small result records
  (\<^verbatim>\<open>{ config }\<close>, \<^verbatim>\<open>{ options }\<close>, \<^verbatim>\<open>{ error }\<close>) stay values: they hold
  the address of the options object.
\<close>

type_synonym addr = nat

record 'n store =
  objects :: "addr \<rightharpoonup> 'n object"
  next_addr :: addr

text \<open>An object literal: a new object at the next free address.\<close>

definition alloc :: "'n object \<Rightarrow> 'n store \<Rightarrow> addr \<times> 'n store" where
  "alloc obj s =
     (next_addr s, s \<lparr> objects := (objects s)(next_addr s \<mapsto> obj), next_addr := Suc (next_addr s) \<rparr>)"

text \<open>
  The object at an address. A JavaScript reference always leads to an object; an address
  outside the store reads as an object with no property.
\<close>

definition deref :: "'n store \<Rightarrow> addr \<Rightarrow> 'n object" where
  "deref s a = (case objects s a of None \<Rightarrow> Map.empty | Some obj \<Rightarrow> obj)"

text \<open>\<^verbatim>\<open>a.k = v\<close>\<close>

definition write_prop :: "addr \<Rightarrow> string \<Rightarrow> 'n jsval \<Rightarrow> 'n store \<Rightarrow> 'n store" where
  "write_prop a k v s = s \<lparr> objects := (objects s)(a \<mapsto> set_prop (deref s a) k v) \<rparr>"

text \<open>\<^verbatim>\<open>dst.k = src.k\<close>\<close>

definition copy_prop :: "addr \<Rightarrow> addr \<Rightarrow> string \<Rightarrow> 'n store \<Rightarrow> 'n store" where
  "copy_prop dst src k s = write_prop dst k (get_prop (deref s src) k) s"

text \<open>\<^verbatim>\<open>dst.k = usePrettierV2Defaults ? src.k : "fixed"\<close>\<close>

definition copy_prop_gated ::
  "addr \<Rightarrow> addr \<Rightarrow> string \<Rightarrow> bool \<Rightarrow> string \<Rightarrow> 'n store \<Rightarrow> 'n store" where
  "copy_prop_gated dst src k usePrettierV2Defaults fixed s =
     write_prop dst k (if usePrettierV2Defaults then get_prop (deref s src) k else JStr fixed) s"

text \<open>One spread element of an object literal: the properties of \<open>src\<close> are written to \<open>dst\<close>.\<close>

definition spread_into :: "addr \<Rightarrow> addr \<Rightarrow> 'n store \<Rightarrow> 'n store" where
  "spread_into dst src s = s \<lparr> objects := (objects s)(dst \<mapsto> spread (deref s dst) (deref s src)) \<rparr>"

text \<open>
  Discovery on the store: \<^verbatim>\<open>prettier.resolveConfig\<close> is given the address of its
  options, and gives back the address of a configuration, \<^verbatim>\<open>null\<close> or an error,
  and the store as it left it.
\<close>

type_synonym 'n store_discovery =
  "string \<Rightarrow> addr option \<Rightarrow> 'n store \<Rightarrow> addr option outcome \<times> 'n store"

definition store_discovery_returns :: "addr option \<Rightarrow> 'n store_discovery" where
  [simp]: "store_discovery_returns c filePath opts s = (Inr c, s)"

definition resolveConfig_st ::
  "'n store_discovery \<Rightarrow> string \<Rightarrow> addr option \<Rightarrow> 'n store
     \<Rightarrow> addr IResolveConfigResult outcome \<times> 'n store" where
  "resolveConfig_st prettier_resolveConfig filePath opts s =
     (case prettier_resolveConfig filePath opts s of
        (Inr cfg, s') \<Rightarrow> (Inr \<lparr> config = cfg, error = None \<rparr>, s')
      | (Inl err, s') \<Rightarrow> (Inr \<lparr> config = None, error = Some err \<rparr>, s'))"

text \<open>Lines 42 to 64 on the store.\<close>

definition assign_vsOpts_st :: "addr \<Rightarrow> addr \<Rightarrow> bool \<Rightarrow> 'n store \<Rightarrow> 'n store" where
  "assign_vsOpts_st vsOpts vsCodeConfig usePrettierV2Defaults s0 =
     (let s = copy_prop_gated vsOpts vsCodeConfig ''arrowParens'' usePrettierV2Defaults ''avoid'' s0;
          s = copy_prop vsOpts vsCodeConfig ''bracketSpacing'' s;
          s = copy_prop_gated vsOpts vsCodeConfig ''endOfLine'' usePrettierV2Defaults ''auto'' s;
          s = copy_prop vsOpts vsCodeConfig ''htmlWhitespaceSensitivity'' s;
          s = copy_prop vsOpts vsCodeConfig ''insertPragma'' s;
          s = copy_prop vsOpts vsCodeConfig ''jsxBracketSameLine'' s;
          s = copy_prop vsOpts vsCodeConfig ''jsxSingleQuote'' s;
          s = copy_prop vsOpts vsCodeConfig ''printWidth'' s;
          s = copy_prop vsOpts vsCodeConfig ''proseWrap'' s;
          s = copy_prop vsOpts vsCodeConfig ''quoteProps'' s;
          s = copy_prop vsOpts vsCodeConfig ''requirePragma'' s;
          s = copy_prop vsOpts vsCodeConfig ''semi'' s;
          s = copy_prop vsOpts vsCodeConfig ''singleQuote'' s;
          s = copy_prop vsOpts vsCodeConfig ''tabWidth'' s;
          s = copy_prop_gated vsOpts vsCodeConfig ''trailingComma'' usePrettierV2Defaults ''none'' s;
          s = copy_prop vsOpts vsCodeConfig ''useTabs'' s;
          s = copy_prop vsOpts vsCodeConfig ''vueIndentScriptAndStyle'' s
      in s)"

text \<open>
  Lines 73 to 82 on the store: the literal allocates the new object, then each spread
  element is evaluated (an empty literal allocates too) and written to it, in order.
\<close>

definition build_options ::
  "addr option \<Rightarrow> string \<Rightarrow> string \<Rightarrow> addr option \<Rightarrow> addr option \<Rightarrow> 'n store
     \<Rightarrow> addr \<times> 'n store" where
  "build_options vsOpts fileName parser rangeFormattingOptions configOptions s0 =
     (let (opts, s) = alloc Map.empty s0;
          (l1, s) = (case vsOpts of None \<Rightarrow> alloc Map.empty s | Some a \<Rightarrow> (a, s));
          s = spread_into opts l1 s;
          (l2, s) = alloc [''filepath'' \<mapsto> JStr fileName, ''parser'' \<mapsto> JStr parser] s;
          s = spread_into opts l2 s;
          (l3, s) = (case rangeFormattingOptions of None \<Rightarrow> alloc Map.empty s | Some a \<Rightarrow> (a, s));
          s = spread_into opts l3 s;
          (l4, s) = (case configOptions of None \<Rightarrow> alloc Map.empty s | Some a \<Rightarrow> (a, s));
          s = spread_into opts l4 s
      in (opts, s))"

text \<open>\<^verbatim>\<open>getPrettierOptions\<close> (lines 18 to 85) on the store.\<close>

definition getPrettierOptions_st ::
  "'n store_discovery \<Rightarrow> ConfigResolver \<Rightarrow> string \<Rightarrow> string \<Rightarrow> addr \<Rightarrow> string \<Rightarrow> addr
     \<Rightarrow> addr option \<Rightarrow> 'n store
     \<Rightarrow> addr PrettierOptionsResult outcome \<times> ConfigResolver \<times> 'n store" where
  "getPrettierOptions_st prettier_resolveConfig this fileName parser vsCodeConfig prettierVersion
       resolveConfigOptions rangeFormattingOptions s0 =
     (case resolveConfig_st prettier_resolveConfig fileName (Some resolveConfigOptions) s0 of
        (Inl e, s1) \<Rightarrow> (Inl e, this, s1)
      | (Inr r, s1) \<Rightarrow>
          (case IResolveConfigResult.error r of
             Some err \<Rightarrow> (Inr \<lparr> options = None, error = Some err \<rparr>, this, s1)
           | None \<Rightarrow>
               (let configOptions = config r;
                    (vsOpts, s2) = alloc Map.empty s1;
                    fallbackToVSCodeConfig = (configOptions = None)
                in (case semver_gte prettierVersion ''2.0.0'' of
                      Inl e \<Rightarrow> (Inl e, this, s2)
                    | Inr usePrettierV2Defaults \<Rightarrow>
                        (let s3 =
                               (if fallbackToVSCodeConfig
                                then assign_vsOpts_st vsOpts vsCodeConfig usePrettierV2Defaults s2
                                else s2);
                             this' = this \<lparr> loggingService :=
                               logInfo (loggingService this)
                                 (if fallbackToVSCodeConfig then fallback_message
                                  else detected_message) \<rparr>;
                             (opts, s4) =
                               build_options
                                 (if fallbackToVSCodeConfig then Some vsOpts else None)
                                 fileName parser rangeFormattingOptions configOptions s3
                         in (Inr \<lparr> options = Some opts, error = None \<rparr>, this', s4))))))"

text \<open>
  Every object below address \<open>n\<close> is in \<open>s'\<close> what it is in \<open>s\<close>, and \<open>s'\<close> has
  allocated at least up to \<open>n\<close>.
\<close>

definition unchanged_below :: "addr \<Rightarrow> 'n store \<Rightarrow> 'n store \<Rightarrow> bool" where
  "unchanged_below n s s' = (n \<le> next_addr s' \<and> (\<forall>a<n. objects s' a = objects s a))"

section \<open>Evaluating the version model\<close>

lemmas semver_eval =
  SemVer_new_def semver_match_def type_error_def MAX_LENGTH_def MAX_SAFE_INTEGER_def trim_def
  is_space_def strip_v_def split_first_def is_numeric_identifier_def
  is_prerelease_identifier_def is_build_identifier_def is_identifier_char_def is_digit_def
  is_letter_def to_number_def digit_value_def to_identifier_def

lemma SemVer_new_2_0_0:
  "SemVer_new ''2.0.0''
     = Inr \<lparr> major = 2, minor = 0, patch = 0, prerelease = [], build = [] \<rparr>"
  by (simp add: semver_eval)

lemma SemVer_new_1_19_0:
  "SemVer_new ''1.19.0''
     = Inr \<lparr> major = 1, minor = 19, patch = 0, prerelease = [], build = [] \<rparr>"
  by (simp add: semver_eval)

lemma SemVer_new_2_3_1:
  "SemVer_new ''2.3.1''
     = Inr \<lparr> major = 2, minor = 3, patch = 1, prerelease = [], build = [] \<rparr>"
  by (simp add: semver_eval)

lemma SemVer_new_2_0_0_rc_1:
  "SemVer_new ''2.0.0-rc.1''
     = Inr \<lparr> major = 2, minor = 0, patch = 0,
               prerelease = [Alphanumeric ''rc'', Numeric 1], build = [] \<rparr>"
  by (simp add: semver_eval)

lemma SemVer_new_banana:
  "SemVer_new ''banana'' = Inl (JsError ''TypeError'' ''Invalid Version: banana'')"
  by (simp add: semver_eval)

text \<open>
  Against the release 2.0.0 the comparison answers by the three numbers and, when they
  are 2, 0 and 0, by whether there is a pre-release tag.
\<close>

lemma semver_gte_2_0_0:
  assumes "SemVer_new v = Inr sv"
  shows "semver_gte v ''2.0.0'' = Inr (at_least_release sv 2 0 0)"
proof -
  let ?t = "\<lparr> major = 2, minor = 0, patch = 0, prerelease = [], build = [] \<rparr>"
  have "semver_gte v ''2.0.0'' = Inr (0 \<le> compare sv ?t)"
    using assms by (simp add: semver_gte_def SemVer_new_2_0_0)
  moreover have "(0 \<le> compare sv ?t) = at_least_release sv 2 0 0"
    by (cases "prerelease sv = []")
       (simp_all add: compare_def compareMain_def compareNumbers_def comparePre_def
          at_least_release_def)
  ultimately show ?thesis by simp
qed

lemma semver_gte_invalid:
  assumes "SemVer_new v = Inl e"
  shows "semver_gte v w = Inl e"
  using assms by (simp add: semver_gte_def)

lemma semver_gte_1_19_0: "semver_gte ''1.19.0'' ''2.0.0'' = Inr False"
  by (simp add: semver_gte_2_0_0 [OF SemVer_new_1_19_0] at_least_release_def)

lemma semver_gte_2_3_1: "semver_gte ''2.3.1'' ''2.0.0'' = Inr True"
  by (simp add: semver_gte_2_0_0 [OF SemVer_new_2_3_1] at_least_release_def)

lemma semver_gte_banana:
  "semver_gte ''banana'' ''2.0.0'' = Inl (JsError ''TypeError'' ''Invalid Version: banana'')"
  by (simp add: semver_gte_invalid [OF SemVer_new_banana])

section \<open>The paths through \<^verbatim>\<open>getPrettierOptions\<close>\<close>

lemma getPrettierOptions_discovery_failed:
  assumes "d fileName (Some rco) = Inl e"
  shows "getPrettierOptions d this fileName parser vs v rco rfo
           = (Inr \<lparr> options = None, error = Some e \<rparr>, this)"
  using assms by (simp add: getPrettierOptions_def resolveConfig_def)

lemma getPrettierOptions_comparison_throws:
  assumes "d fileName (Some rco) = Inr c" and "semver_gte v ''2.0.0'' = Inl e"
  shows "getPrettierOptions d this fileName parser vs v rco rfo = (Inl e, this)"
  using assms by (simp add: getPrettierOptions_def resolveConfig_def)

lemma getPrettierOptions_fallback:
  assumes "d fileName (Some rco) = Inr None" and "semver_gte v ''2.0.0'' = Inr b"
  shows "getPrettierOptions d this fileName parser vs v rco rfo
           = (Inr \<lparr> options =
                      Some (assign_vsOpts Map.empty vs b
                            ++ [''filepath'' \<mapsto> JStr fileName, ''parser'' \<mapsto> JStr parser]
                            ++ (case rfo of None \<Rightarrow> Map.empty | Some r \<Rightarrow> r)),
                    error = None \<rparr>,
              this \<lparr> loggingService := loggingService this @ [fallback_message] \<rparr>)"
  using assms
  by (simp add: getPrettierOptions_def resolveConfig_def spread_def logInfo_def Let_def)

lemma getPrettierOptions_detected:
  assumes "d fileName (Some rco) = Inr (Some c)" and "semver_gte v ''2.0.0'' = Inr b"
  shows "getPrettierOptions d this fileName parser vs v rco rfo
           = (Inr \<lparr> options =
                      Some ([''filepath'' \<mapsto> JStr fileName, ''parser'' \<mapsto> JStr parser]
                            ++ (case rfo of None \<Rightarrow> Map.empty | Some r \<Rightarrow> r)
                            ++ c),
                    error = None \<rparr>,
              this \<lparr> loggingService := loggingService this @ [detected_message] \<rparr>)"
  using assms
  by (simp add: getPrettierOptions_def resolveConfig_def spread_def logInfo_def Let_def)


lemma assign_vsOpts_gated:
  "assign_vsOpts m vs b ''arrowParens''
     = Some (if b then get_prop vs ''arrowParens'' else JStr ''avoid'')"
  "assign_vsOpts m vs b ''trailingComma''
     = Some (if b then get_prop vs ''trailingComma'' else JStr ''none'')"
  "assign_vsOpts m vs b ''endOfLine''
     = Some (if b then get_prop vs ''endOfLine'' else JStr ''auto'')"
  by (simp_all add: assign_vsOpts_def set_prop_def Let_def)

text \<open>Looking a property up through the layers of the merge.\<close>

lemma range_layer_lookup:
  "(case rfo of None \<Rightarrow> Map.empty | Some r \<Rightarrow> r) k = own_prop rfo k"
  by (simp add: own_prop_def split: option.splits)

lemma over_range_layer:
  "(m ++ (case rfo of None \<Rightarrow> Map.empty | Some r \<Rightarrow> r)) k
     = (case own_prop rfo k of None \<Rightarrow> m k | Some x \<Rightarrow> Some x)"
  by (simp add: map_add_def range_layer_lookup)


section \<open>Discovery: \<^verbatim>\<open>resolveConfig\<close> and \<^verbatim>\<open>checkHasPrettierConfig\<close>\<close>

text \<open>
  Claim C6. \<^verbatim>\<open>resolveConfig\<close> never rejects, whatever discovery does: it always
  resolves to a result. When discovery fails, the result carries that failure in
  \<^verbatim>\<open>error\<close> and \<^verbatim>\<open>null\<close> in \<^verbatim>\<open>config\<close>; when discovery succeeds, the value it
  returned (a configuration or \<^verbatim>\<open>null\<close>) is in \<^verbatim>\<open>config\<close> and no error is set.
\<close>

theorem resolveConfig_never_throws:
  "\<exists>r. resolveConfig d filePath opts = Inr r \<and>
       (case d filePath opts of
          Inl e \<Rightarrow> config r = None \<and> IResolveConfigResult.error r = Some e
        | Inr c \<Rightarrow> config r = c \<and> IResolveConfigResult.error r = None)"
  by (simp add: resolveConfig_def split: sum.splits)

theorem resolveConfig_never_throws_witness:
  "resolveConfig
       (discovery_fails (JsError ''SyntaxError'' ''bad rc file'') :: int discovery)
       ''a.js'' None
     = Inr \<lparr> config = None, error = Some (JsError ''SyntaxError'' ''bad rc file'') \<rparr>
   \<and> resolveConfig
       (discovery_returns (Some [''semi'' \<mapsto> JBool False]) :: int discovery)
       ''a.js'' None
     = Inr \<lparr> config = Some [''semi'' \<mapsto> JBool False], error = None \<rparr>
   \<and> resolveConfig (discovery_returns None :: int discovery) ''a.js'' None
     = Inr \<lparr> config = None, error = None \<rparr>"
  using resolveConfig_never_throws
          [of "discovery_fails (JsError ''SyntaxError'' ''bad rc file'') :: int discovery"
              "''a.js''" None]
        resolveConfig_never_throws
          [of "discovery_returns (Some [''semi'' \<mapsto> JBool False]) :: int discovery"
              "''a.js''" None]
        resolveConfig_never_throws
          [of "discovery_returns None :: int discovery" "''a.js''" None]
  by auto

text \<open>
  Claim C5. \<^verbatim>\<open>checkHasPrettierConfig\<close> returns \<^verbatim>\<open>false\<close> exactly when discovery
  yields \<^verbatim>\<open>null\<close>, returns \<^verbatim>\<open>true\<close> exactly when discovery yields a
  configuration, and throws an error exactly when discovery fails with that error.
\<close>

theorem checkHasPrettierConfig_iff:
  "(checkHasPrettierConfig d filePath = Inr False) = (d filePath None = Inr None)
   \<and> (checkHasPrettierConfig d filePath = Inr True) = (\<exists>c. d filePath None = Inr (Some c))
   \<and> (checkHasPrettierConfig d filePath = Inl e) = (d filePath None = Inl e)"
  by (auto simp: checkHasPrettierConfig_def resolveConfig_def split: sum.splits option.splits)

theorem checkHasPrettierConfig_iff_witness:
  "checkHasPrettierConfig (discovery_returns None :: int discovery) ''a.js'' = Inr False
   \<and> checkHasPrettierConfig (discovery_returns (Some Map.empty) :: int discovery)
       ''a.js'' = Inr True
   \<and> checkHasPrettierConfig
       (discovery_fails (JsError ''Error'' ''EACCES'') :: int discovery) ''a.js''
       = Inl (JsError ''Error'' ''EACCES'')"
  using checkHasPrettierConfig_iff
          [of "discovery_returns None :: int discovery" "''a.js''"]
        checkHasPrettierConfig_iff
          [of "discovery_returns (Some Map.empty) :: int discovery" "''a.js''"]
        checkHasPrettierConfig_iff
          [of "discovery_fails (JsError ''Error'' ''EACCES'') :: int discovery"
              "''a.js''" "JsError ''Error'' ''EACCES''"]
  by simp

section \<open>The merged options\<close>

text \<open>
  A call that returns options went through discovery without an error and through the
  version comparison without an exception.
\<close>

lemma getPrettierOptions_returns_options:
  assumes "getPrettierOptions d this fileName parser vs v rco rfo = (Inr res, this')"
    and "options res = Some opts"
  obtains c b where "d fileName (Some rco) = Inr c" and "semver_gte v ''2.0.0'' = Inr b"
proof (cases "d fileName (Some rco)")
  case (Inl e)
  with assms show ?thesis
    using getPrettierOptions_discovery_failed [of d fileName rco e this parser vs v rfo]
    by auto
next
  case (Inr c)
  show ?thesis
  proof (cases "semver_gte v ''2.0.0''")
    case (Inl e)
    with assms Inr show ?thesis
      using getPrettierOptions_comparison_throws [of d fileName rco c v e this parser vs rfo]
      by auto
  next
    case b: (Inr b)
    from Inr b show ?thesis by (rule that)
  qed
qed

text \<open>
  Claim C1, amended. In every options record that \<^verbatim>\<open>getPrettierOptions\<close> returns,
  \<^verbatim>\<open>filepath\<close> and \<^verbatim>\<open>parser\<close> are present. Each equals the call's argument unless
  a later layer of the merge defines that property itself: the range options are spread
  over the two arguments and the discovered configuration over the range options, so a
  value the discovered configuration defines is returned, else a value the range options
  define, else the argument. The editor configuration cannot change either property.
\<close>

theorem getPrettierOptions_filepath_parser:
  assumes "getPrettierOptions d this fileName parser vs v rco rfo = (Inr res, this')"
    and "options res = Some opts"
  shows "\<exists>c. d fileName (Some rco) = Inr c
           \<and> opts ''filepath''
               = Some (overridden_by c ''filepath'' (overridden_by rfo ''filepath'' (JStr fileName)))
           \<and> opts ''parser''
               = Some (overridden_by c ''parser'' (overridden_by rfo ''parser'' (JStr parser)))"
proof -
  from assms obtain c b
    where d: "d fileName (Some rco) = Inr c" and b: "semver_gte v ''2.0.0'' = Inr b"
    by (rule getPrettierOptions_returns_options)
  show ?thesis
  proof (cases c)
    case None
    with d b assms have
      "opts = assign_vsOpts Map.empty vs b
              ++ [''filepath'' \<mapsto> JStr fileName, ''parser'' \<mapsto> JStr parser]
              ++ (case rfo of None \<Rightarrow> Map.empty | Some r \<Rightarrow> r)"
      using getPrettierOptions_fallback [of d fileName rco v b this parser vs rfo]
      by auto
    with d None show ?thesis
      by (simp add: over_range_layer overridden_by_def own_prop_def split: option.splits)
  next
    case (Some cfg)
    with d b assms have
      "opts = [''filepath'' \<mapsto> JStr fileName, ''parser'' \<mapsto> JStr parser]
              ++ (case rfo of None \<Rightarrow> Map.empty | Some r \<Rightarrow> r)
              ++ cfg"
      using getPrettierOptions_detected [of d fileName rco cfg v b this parser vs rfo]
      by auto
    then have
      "opts ''filepath''
         = (case cfg ''filepath'' of
              None \<Rightarrow> Some (overridden_by rfo ''filepath'' (JStr fileName))
            | Some x \<Rightarrow> Some x)"
      "opts ''parser''
         = (case cfg ''parser'' of
              None \<Rightarrow> Some (overridden_by rfo ''parser'' (JStr parser))
            | Some x \<Rightarrow> Some x)"
      by (simp_all add: map_add_def range_layer_lookup overridden_by_def split: option.splits)
    with d Some show ?thesis
      by (simp add: overridden_by_def own_prop_def split: option.splits)
  qed
qed

theorem getPrettierOptions_filepath_parser_witness:
  "(\<exists>res this' opts.
      getPrettierOptions (discovery_returns None :: int discovery)
          \<lparr> loggingService = [] \<rparr> ''a.js'' ''babel''
          [''filepath'' \<mapsto> JStr ''editor.js'', ''parser'' \<mapsto> JStr ''flow'']
          ''2.3.1'' Map.empty (Some [''rangeStart'' \<mapsto> JNum 0, ''rangeEnd'' \<mapsto> JNum 10])
        = (Inr res, this')
      \<and> options res = Some opts
      \<and> opts ''filepath'' = Some (JStr ''a.js'')
      \<and> opts ''parser'' = Some (JStr ''babel''))
   \<and> (\<exists>res this' opts.
      getPrettierOptions
          (discovery_returns (Some [''parser'' \<mapsto> JStr ''typescript'']) :: int discovery)
          \<lparr> loggingService = [] \<rparr> ''a.js'' ''babel''
          [''filepath'' \<mapsto> JStr ''editor.js'', ''parser'' \<mapsto> JStr ''flow'']
          ''2.3.1'' Map.empty
          (Some [''rangeStart'' \<mapsto> JNum 0, ''rangeEnd'' \<mapsto> JNum 10,
                 ''filepath'' \<mapsto> JStr ''range.js'', ''parser'' \<mapsto> JStr ''css''])
        = (Inr res, this')
      \<and> options res = Some opts
      \<and> opts ''filepath'' = Some (JStr ''range.js'')
      \<and> opts ''parser'' = Some (JStr ''typescript''))"
proof -
  let ?d0 = "discovery_returns None :: int discovery"
  let ?cfg = "[''parser'' \<mapsto> JStr ''typescript''] :: int object"
  let ?d1 = "discovery_returns (Some ?cfg) :: int discovery"
  let ?vs = "[''filepath'' \<mapsto> JStr ''editor.js'', ''parser'' \<mapsto> JStr ''flow''] :: int object"
  let ?r0 = "Some [''rangeStart'' \<mapsto> JNum 0, ''rangeEnd'' \<mapsto> JNum (10 :: int)]"
  let ?r1 = "Some [''rangeStart'' \<mapsto> JNum 0, ''rangeEnd'' \<mapsto> JNum (10 :: int),
                   ''filepath'' \<mapsto> JStr ''range.js'', ''parser'' \<mapsto> JStr ''css'']"
  let ?cr = "\<lparr> loggingService = [] \<rparr>"
  obtain res0 this0 opts0
    where call0: "getPrettierOptions ?d0 ?cr ''a.js'' ''babel'' ?vs ''2.3.1'' Map.empty ?r0
                    = (Inr res0, this0)"
      and opts0: "options res0 = Some opts0"
    using getPrettierOptions_fallback
            [of ?d0 "''a.js''" Map.empty "''2.3.1''" True ?cr "''babel''" ?vs ?r0]
    by (simp add: semver_gte_2_3_1)
  obtain res1 this1 opts1
    where call1: "getPrettierOptions ?d1 ?cr ''a.js'' ''babel'' ?vs ''2.3.1'' Map.empty ?r1
                    = (Inr res1, this1)"
      and opts1: "options res1 = Some opts1"
    using getPrettierOptions_detected
            [of ?d1 "''a.js''" Map.empty ?cfg "''2.3.1''" True ?cr "''babel''" ?vs ?r1]
    by (simp add: semver_gte_2_3_1)
  from getPrettierOptions_filepath_parser [OF call0 opts0]
  have "opts0 ''filepath'' = Some (JStr ''a.js'')" and "opts0 ''parser'' = Some (JStr ''babel'')"
    by (simp_all add: overridden_by_def own_prop_def)
  moreover from getPrettierOptions_filepath_parser [OF call1 opts1]
  have "opts1 ''filepath'' = Some (JStr ''range.js'')"
    and "opts1 ''parser'' = Some (JStr ''typescript'')"
    by (simp_all add: overridden_by_def own_prop_def)
  ultimately show ?thesis
    using call0 opts0 call1 opts1 by blast
qed

text \<open>
  Claim C1 as it was stated fails: a discovered configuration that defines
  \<^verbatim>\<open>parser\<close> replaces the \<^verbatim>\<open>parser\<close> argument in the returned options.
\<close>

theorem getPrettierOptions_parser_overridden:
  "fst (getPrettierOptions
          (discovery_returns (Some [''parser'' \<mapsto> JStr ''typescript'']) :: int discovery)
          \<lparr> loggingService = [] \<rparr> ''a.js'' ''babel'' Map.empty ''2.3.1'' Map.empty None)
     = Inr \<lparr> options = Some [''filepath'' \<mapsto> JStr ''a.js'', ''parser'' \<mapsto> JStr ''typescript''],
             error = None \<rparr>
   \<and> JStr ''typescript'' \<noteq> (JStr ''babel'' :: int jsval)"
  using getPrettierOptions_detected
          [of "discovery_returns (Some [''parser'' \<mapsto> JStr ''typescript'']) :: int discovery"
              "''a.js''" Map.empty "[''parser'' \<mapsto> JStr ''typescript'']" "''2.3.1''" True
              "\<lparr> loggingService = [] \<rparr>" "''babel''" Map.empty None]
  by (simp add: semver_gte_2_3_1 map_add_def fun_eq_iff)

text \<open>
  Claim C2. When discovery returns a configuration, every property of that configuration
  is in the returned options with the discovered value, whatever the editor configuration
  and the range options hold for it.
\<close>

theorem getPrettierOptions_discovered_wins:
  assumes "d fileName (Some rco) = Inr (Some cfg)"
    and "getPrettierOptions d this fileName parser vs v rco rfo = (Inr res, this')"
  shows "\<exists>opts. options res = Some opts \<and> PrettierOptionsResult.error res = None
           \<and> (\<forall>k \<in> dom cfg. opts k = cfg k)"
proof (cases "semver_gte v ''2.0.0''")
  case (Inl e)
  with assms show ?thesis
    using getPrettierOptions_comparison_throws [of d fileName rco "Some cfg" v e this parser vs rfo]
    by auto
next
  case (Inr b)
  with assms have
    "res = \<lparr> options =
               Some ([''filepath'' \<mapsto> JStr fileName, ''parser'' \<mapsto> JStr parser]
                     ++ (case rfo of None \<Rightarrow> Map.empty | Some r \<Rightarrow> r)
                     ++ cfg),
             error = None \<rparr>"
    using getPrettierOptions_detected [of d fileName rco cfg v b this parser vs rfo]
    by auto
  then show ?thesis
    by (auto simp: map_add_def)
qed

theorem getPrettierOptions_discovered_wins_witness:
  "\<exists>res this' opts.
     getPrettierOptions
         (discovery_returns (Some [''tabWidth'' \<mapsto> JNum 4, ''rangeEnd'' \<mapsto> JNum 7]) :: int discovery)
         \<lparr> loggingService = [] \<rparr> ''a.js'' ''babel''
         [''tabWidth'' \<mapsto> JNum 2, ''semi'' \<mapsto> JBool True]
         ''2.3.1'' Map.empty (Some [''rangeStart'' \<mapsto> JNum 0, ''rangeEnd'' \<mapsto> JNum 10])
       = (Inr res, this')
     \<and> options res = Some opts
     \<and> opts ''tabWidth'' = Some (JNum 4)
     \<and> opts ''rangeEnd'' = Some (JNum 7)"
proof -
  let ?cfg = "[''tabWidth'' \<mapsto> JNum 4, ''rangeEnd'' \<mapsto> JNum 7] :: int object"
  let ?d = "discovery_returns (Some ?cfg) :: int discovery"
  let ?call = "getPrettierOptions ?d \<lparr> loggingService = [] \<rparr> ''a.js'' ''babel''
         [''tabWidth'' \<mapsto> JNum 2, ''semi'' \<mapsto> JBool True]
         ''2.3.1'' Map.empty (Some [''rangeStart'' \<mapsto> JNum 0, ''rangeEnd'' \<mapsto> JNum 10])"
  obtain res this' where call: "?call = (Inr res, this')"
    using getPrettierOptions_detected [of ?d "''a.js''" Map.empty ?cfg "''2.3.1''" True]
    by (simp add: semver_gte_2_3_1)
  have d: "?d ''a.js'' (Some Map.empty) = Inr (Some ?cfg)"
    by simp
  from getPrettierOptions_discovered_wins [of ?d, OF d call]
  obtain opts where "options res = Some opts" and "\<forall>k \<in> dom ?cfg. opts k = ?cfg k"
    by blast
  then have "options res = Some opts \<and> opts ''tabWidth'' = Some (JNum 4)
             \<and> opts ''rangeEnd'' = Some (JNum 7)"
    by simp
  with call show ?thesis by blast
qed




text \<open>
  Claim C4, amended. When the resolver falls back to the editor configuration and the
  formatter version is a semantic version, each of \<^verbatim>\<open>arrowParens\<close>,
  \<^verbatim>\<open>trailingComma\<close> and \<^verbatim>\<open>endOfLine\<close> that the range options do not define
  themselves is, in the result: what the editor configuration holds when the version is at
  least 2.0.0 (a pre-release of 2.0.0 is below it), and \<^verbatim>\<open>avoid\<close>, \<^verbatim>\<open>none\<close> and
  \<^verbatim>\<open>auto\<close> when it is below 2.0.0, whatever the editor configuration holds. One that
  the range options define has the range options' value.
\<close>

theorem getPrettierOptions_version_gate:
  assumes "d fileName (Some rco) = Inr None" and "SemVer_new v = Inr sv"
  shows "\<exists>opts this'.
           getPrettierOptions d this fileName parser vs v rco rfo
             = (Inr \<lparr> options = Some opts, error = None \<rparr>, this')
           \<and> (if at_least_release sv 2 0 0
               then opts ''arrowParens''
                      = Some (overridden_by rfo ''arrowParens'' (get_prop vs ''arrowParens''))
                    \<and> opts ''trailingComma''
                      = Some (overridden_by rfo ''trailingComma'' (get_prop vs ''trailingComma''))
                    \<and> opts ''endOfLine''
                      = Some (overridden_by rfo ''endOfLine'' (get_prop vs ''endOfLine''))
               else opts ''arrowParens''
                      = Some (overridden_by rfo ''arrowParens'' (JStr ''avoid''))
                    \<and> opts ''trailingComma''
                      = Some (overridden_by rfo ''trailingComma'' (JStr ''none''))
                    \<and> opts ''endOfLine''
                      = Some (overridden_by rfo ''endOfLine'' (JStr ''auto'')))"
proof -
  let ?b = "at_least_release sv 2 0 0"
  let ?base = "assign_vsOpts Map.empty vs ?b
               ++ [''filepath'' \<mapsto> JStr fileName, ''parser'' \<mapsto> JStr parser]"
  let ?opts = "?base ++ (case rfo of None \<Rightarrow> Map.empty | Some r \<Rightarrow> r)"
  have gte: "semver_gte v ''2.0.0'' = Inr ?b"
    using assms(2) by (rule semver_gte_2_0_0)
  have call: "getPrettierOptions d this fileName parser vs v rco rfo
          = (Inr \<lparr> options = Some ?opts, error = None \<rparr>,
             this \<lparr> loggingService := loggingService this @ [fallback_message] \<rparr>)"
    using assms(1) gte by (rule getPrettierOptions_fallback)
  have over: "\<And>k x. ?base k = Some x \<Longrightarrow> ?opts k = Some (overridden_by rfo k x)"
    by (simp add: over_range_layer overridden_by_def split: option.splits)
  have gated:
    "?base ''arrowParens'' = Some (if ?b then get_prop vs ''arrowParens'' else JStr ''avoid'')"
    "?base ''trailingComma'' = Some (if ?b then get_prop vs ''trailingComma'' else JStr ''none'')"
    "?base ''endOfLine'' = Some (if ?b then get_prop vs ''endOfLine'' else JStr ''auto'')"
    by (simp_all add: map_add_def assign_vsOpts_gated)
  have
    "?opts ''arrowParens''
       = Some (overridden_by rfo ''arrowParens''
                 (if ?b then get_prop vs ''arrowParens'' else JStr ''avoid''))"
    "?opts ''trailingComma''
       = Some (overridden_by rfo ''trailingComma''
                 (if ?b then get_prop vs ''trailingComma'' else JStr ''none''))"
    "?opts ''endOfLine''
       = Some (overridden_by rfo ''endOfLine''
                 (if ?b then get_prop vs ''endOfLine'' else JStr ''auto''))"
    using over [OF gated(1)] over [OF gated(2)] over [OF gated(3)] by simp_all
  with call show ?thesis
    by (cases ?b) auto
qed

theorem getPrettierOptions_version_gate_witness:
  "(\<exists>opts this'.
      getPrettierOptions (discovery_returns None :: int discovery)
          \<lparr> loggingService = [] \<rparr> ''a.js'' ''babel''
          [''arrowParens'' \<mapsto> JStr ''always'', ''endOfLine'' \<mapsto> JStr ''lf''] ''2.3.1'' Map.empty
          (Some [''rangeStart'' \<mapsto> JNum 0, ''rangeEnd'' \<mapsto> JNum 10])
        = (Inr \<lparr> options = Some opts, error = None \<rparr>, this')
      \<and> opts ''arrowParens'' = Some (JStr ''always'')
      \<and> opts ''trailingComma'' = Some JUndefined
      \<and> opts ''endOfLine'' = Some (JStr ''lf''))
   \<and> (\<exists>opts this'.
      getPrettierOptions (discovery_returns None :: int discovery)
          \<lparr> loggingService = [] \<rparr> ''a.js'' ''babel''
          [''arrowParens'' \<mapsto> JStr ''always'', ''endOfLine'' \<mapsto> JStr ''lf''] ''2.0.0-rc.1''
          Map.empty (Some [''rangeStart'' \<mapsto> JNum 0, ''rangeEnd'' \<mapsto> JNum 10])
        = (Inr \<lparr> options = Some opts, error = None \<rparr>, this')
      \<and> opts ''arrowParens'' = Some (JStr ''avoid'')
      \<and> opts ''trailingComma'' = Some (JStr ''none'')
      \<and> opts ''endOfLine'' = Some (JStr ''auto''))"
proof -
  let ?d = "discovery_returns None :: int discovery"
  have d: "?d ''a.js'' (Some Map.empty) = Inr None"
    by simp
  let ?vs = "[''arrowParens'' \<mapsto> JStr ''always'', ''endOfLine'' \<mapsto> JStr ''lf''] :: int object"
  note gate = getPrettierOptions_version_gate
                [where d = ?d and this = "\<lparr> loggingService = [] \<rparr>" and parser = "''babel''"
                   and vs = ?vs
                   and rfo = "Some [''rangeStart'' \<mapsto> JNum 0, ''rangeEnd'' \<mapsto> JNum 10]", OF d]
  show ?thesis
    using gate [OF SemVer_new_2_3_1] gate [OF SemVer_new_2_0_0_rc_1]
    by (simp add: at_least_release_def get_prop_def overridden_by_def own_prop_def)
qed

text \<open>
  Claim C4 as it was stated fails: range options that carry \<^verbatim>\<open>arrowParens\<close> beside
  \<^verbatim>\<open>rangeStart\<close> and \<^verbatim>\<open>rangeEnd\<close> decide that property of the result. Below 2.0.0
  it is not the fixed value \<^verbatim>\<open>avoid\<close>, and from 2.0.0 on it is not the editor's
  value.
\<close>

theorem getPrettierOptions_range_overrides_gate:
  "is_RangeFormattingOptions
     ([''rangeStart'' \<mapsto> JNum 0, ''rangeEnd'' \<mapsto> JNum 10, ''arrowParens'' \<mapsto> JStr ''always'']
        :: int object)
   \<and> returned_prop
       (getPrettierOptions (discovery_returns None :: int discovery)
          \<lparr> loggingService = [] \<rparr> ''a.js'' ''babel'' [''arrowParens'' \<mapsto> JStr ''avoid'']
          ''1.19.0'' Map.empty
          (Some [''rangeStart'' \<mapsto> JNum 0, ''rangeEnd'' \<mapsto> JNum 10,
                 ''arrowParens'' \<mapsto> JStr ''always'']))
       ''arrowParens''
     = Some (JStr ''always'')
   \<and> returned_prop
       (getPrettierOptions (discovery_returns None :: int discovery)
          \<lparr> loggingService = [] \<rparr> ''a.js'' ''babel'' [''arrowParens'' \<mapsto> JStr ''avoid'']
          ''2.3.1'' Map.empty
          (Some [''rangeStart'' \<mapsto> JNum 0, ''rangeEnd'' \<mapsto> JNum 10,
                 ''arrowParens'' \<mapsto> JStr ''always'']))
       ''arrowParens''
     = Some (JStr ''always'')"
proof -
  let ?d = "discovery_returns None :: int discovery"
  let ?vs = "[''arrowParens'' \<mapsto> JStr ''avoid''] :: int object"
  let ?rfo = "Some [''rangeStart'' \<mapsto> JNum 0, ''rangeEnd'' \<mapsto> JNum (10 :: int),
                    ''arrowParens'' \<mapsto> JStr ''always'']"
  note fb = getPrettierOptions_fallback
              [where d = ?d and fileName = "''a.js''" and rco = Map.empty
                 and this = "\<lparr> loggingService = [] \<rparr>" and parser = "''babel''" and vs = ?vs
                 and rfo = ?rfo]
  show ?thesis
    using fb [of "''1.19.0''" False] fb [of "''2.3.1''" True]
    by (simp add: semver_gte_1_19_0 semver_gte_2_3_1 returned_prop_def
          is_RangeFormattingOptions_def)
qed

section \<open>Errors, exceptions and the log\<close>

text \<open>
  Claim C7, amended. If discovery failed, \<^verbatim>\<open>getPrettierOptions\<close> returns a result that
  carries exactly that error and no options, merges nothing and logs nothing. Otherwise,
  if the version comparison does not throw (the version is a semantic version), it
  returns options and no error; if the comparison throws, the call rejects with that
  exception and returns no result. In every result that is returned, exactly one of the
  two fields is present.
\<close>

theorem getPrettierOptions_result_shape:
  "(case d fileName (Some rco) of
      Inl e \<Rightarrow>
        getPrettierOptions d this fileName parser vs v rco rfo
          = (Inr \<lparr> options = None, error = Some e \<rparr>, this)
    | Inr c \<Rightarrow>
        (case semver_gte v ''2.0.0'' of
           Inl e \<Rightarrow> getPrettierOptions d this fileName parser vs v rco rfo = (Inl e, this)
         | Inr b \<Rightarrow>
             (\<exists>opts this'.
                getPrettierOptions d this fileName parser vs v rco rfo
                  = (Inr \<lparr> options = Some opts, error = None \<rparr>, this'))))
   \<and> (\<forall>res this'.
         getPrettierOptions d this fileName parser vs v rco rfo = (Inr res, this')
         \<longrightarrow> (options res = None) = (PrettierOptionsResult.error res \<noteq> None))"
proof (cases "d fileName (Some rco)")
  case (Inl e)
  then show ?thesis
    using getPrettierOptions_discovery_failed [of d fileName rco e this parser vs v rfo]
    by auto
next
  case (Inr c)
  show ?thesis
  proof (cases "semver_gte v ''2.0.0''")
    case (Inl e)
    with Inr show ?thesis
      using getPrettierOptions_comparison_throws [of d fileName rco c v e this parser vs rfo]
      by auto
  next
    case b: (Inr b)
    show ?thesis
    proof (cases c)
      case None
      with Inr b show ?thesis
        using getPrettierOptions_fallback [of d fileName rco v b this parser vs rfo]
        by auto
    next
      case (Some cfg)
      with Inr b show ?thesis
        using getPrettierOptions_detected [of d fileName rco cfg v b this parser vs rfo]
        by auto
    qed
  qed
qed

theorem getPrettierOptions_result_shape_witness:
  "getPrettierOptions
       (discovery_fails (JsError ''SyntaxError'' ''bad rc file'') :: int discovery)
       \<lparr> loggingService = [] \<rparr> ''a.js'' ''babel'' [''semi'' \<mapsto> JBool True] ''2.3.1'' Map.empty
       None
     = (Inr \<lparr> options = None, error = Some (JsError ''SyntaxError'' ''bad rc file'') \<rparr>,
        \<lparr> loggingService = [] \<rparr>)
   \<and> (\<exists>opts this'.
        getPrettierOptions (discovery_returns None :: int discovery)
            \<lparr> loggingService = [] \<rparr> ''a.js'' ''babel'' [''semi'' \<mapsto> JBool True] ''2.3.1''
            Map.empty None
          = (Inr \<lparr> options = Some opts, error = None \<rparr>, this'))"
proof -
  let ?e = "JsError ''SyntaxError'' ''bad rc file''"
  let ?vs = "[''semi'' \<mapsto> JBool True] :: int object"
  note shape = getPrettierOptions_result_shape
                 [where fileName = "''a.js''" and rco = Map.empty and v = "''2.3.1''"
                    and this = "\<lparr> loggingService = [] \<rparr>" and parser = "''babel''"
                    and vs = ?vs and rfo = None]
  show ?thesis
    using shape [where d = "discovery_fails ?e"] shape [where d = "discovery_returns None"]
    by (simp add: semver_gte_2_3_1)
qed

text \<open>
  Claim C7 as it was stated fails: discovery did not fail, yet no options are returned,
  because the version string is not a semantic version and the comparison throws.
\<close>

theorem getPrettierOptions_rejects_without_result:
  "getPrettierOptions (discovery_returns None :: int discovery)
       \<lparr> loggingService = [] \<rparr> ''a.js'' ''babel'' Map.empty ''banana'' Map.empty None
     = (Inl (JsError ''TypeError'' ''Invalid Version: banana''), \<lparr> loggingService = [] \<rparr>)"
  using getPrettierOptions_comparison_throws
          [of "discovery_returns None :: int discovery" "''a.js''" Map.empty None "''banana''"
              "JsError ''TypeError'' ''Invalid Version: banana''" "\<lparr> loggingService = [] \<rparr>"
              "''babel''" Map.empty None]
  by (simp add: semver_gte_banana)

text \<open>
  Claim C8, amended. A call of \<^verbatim>\<open>getPrettierOptions\<close> that returns options writes
  exactly one line to the logging service: the fallback message when discovery returned
  \<^verbatim>\<open>null\<close>, the other message when it returned a configuration, and the two messages
  differ. A call that returns an error or rejects writes no line.
\<close>

theorem getPrettierOptions_log_line:
  "loggingService (snd (getPrettierOptions d this fileName parser vs v rco rfo))
     = (case fst (getPrettierOptions d this fileName parser vs v rco rfo) of
          Inl e \<Rightarrow> loggingService this
        | Inr res \<Rightarrow>
            (case options res of
               None \<Rightarrow> loggingService this
             | Some opts \<Rightarrow>
                 loggingService this
                 @ [if d fileName (Some rco) = Inr None then fallback_message
                    else detected_message]))
   \<and> fallback_message \<noteq> detected_message"
proof -
  have "fallback_message \<noteq> detected_message"
    by (simp add: fallback_message_def detected_message_def)
  moreover have
    "loggingService (snd (getPrettierOptions d this fileName parser vs v rco rfo))
       = (case fst (getPrettierOptions d this fileName parser vs v rco rfo) of
            Inl e \<Rightarrow> loggingService this
          | Inr res \<Rightarrow>
              (case options res of
                 None \<Rightarrow> loggingService this
               | Some opts \<Rightarrow>
                   loggingService this
                   @ [if d fileName (Some rco) = Inr None then fallback_message
                      else detected_message]))"
  proof (cases "d fileName (Some rco)")
    case (Inl e)
    then show ?thesis
      using getPrettierOptions_discovery_failed [of d fileName rco e this parser vs v rfo]
      by simp
  next
    case (Inr c)
    show ?thesis
    proof (cases "semver_gte v ''2.0.0''")
      case (Inl e)
      with Inr show ?thesis
        using getPrettierOptions_comparison_throws [of d fileName rco c v e this parser vs rfo]
        by simp
    next
      case b: (Inr b)
      show ?thesis
      proof (cases c)
        case None
        with Inr b show ?thesis
          using getPrettierOptions_fallback [of d fileName rco v b this parser vs rfo]
          by simp
      next
        case (Some cfg)
        with Inr b show ?thesis
          using getPrettierOptions_detected [of d fileName rco cfg v b this parser vs rfo]
          by simp
      qed
    qed
  qed
  ultimately show ?thesis by simp
qed

theorem getPrettierOptions_log_line_witness:
  "loggingService
     (snd (getPrettierOptions (discovery_returns None :: int discovery)
             \<lparr> loggingService = [''earlier line''] \<rparr> ''a.js'' ''babel'' Map.empty ''2.3.1''
             Map.empty None))
     = [''earlier line'', fallback_message]
   \<and> loggingService
     (snd (getPrettierOptions (discovery_returns (Some Map.empty) :: int discovery)
             \<lparr> loggingService = [''earlier line''] \<rparr> ''a.js'' ''babel'' Map.empty ''2.3.1''
             Map.empty None))
     = [''earlier line'', detected_message]"
proof -
  let ?d0 = "discovery_returns None :: int discovery"
  let ?d1 = "discovery_returns (Some Map.empty) :: int discovery"
  let ?cr = "\<lparr> loggingService = [''earlier line''] \<rparr>"
  have r0: "fst (getPrettierOptions ?d0 ?cr ''a.js'' ''babel'' Map.empty ''2.3.1'' Map.empty None)
              = Inr \<lparr> options = Some (assign_vsOpts Map.empty Map.empty True
                                       ++ [''filepath'' \<mapsto> JStr ''a.js'', ''parser'' \<mapsto> JStr ''babel'']),
                      error = None \<rparr>"
    using getPrettierOptions_fallback
            [of ?d0 "''a.js''" Map.empty "''2.3.1''" True ?cr "''babel''" Map.empty None]
    by (simp add: semver_gte_2_3_1)
  have r1: "fst (getPrettierOptions ?d1 ?cr ''a.js'' ''babel'' Map.empty ''2.3.1'' Map.empty None)
              = Inr \<lparr> options = Some ([''filepath'' \<mapsto> JStr ''a.js'', ''parser'' \<mapsto> JStr ''babel'']),
                      error = None \<rparr>"
    using getPrettierOptions_detected
            [of ?d1 "''a.js''" Map.empty Map.empty "''2.3.1''" True ?cr "''babel''" Map.empty None]
    by (simp add: semver_gte_2_3_1)
  note line = getPrettierOptions_log_line
                [where this = ?cr and fileName = "''a.js''" and parser = "''babel''"
                   and vs = Map.empty and v = "''2.3.1''" and rco = Map.empty and rfo = None]
  show ?thesis
    using line [where d = ?d0] line [where d = ?d1]
    by (simp add: r0 r1)
qed

text \<open>
  Claim C8 as it was stated fails: when discovery fails the call returns the error at
  line 32, before the line that logs, and the logging service has received nothing.
\<close>

theorem getPrettierOptions_error_logs_nothing:
  "getPrettierOptions
       (discovery_fails (JsError ''SyntaxError'' ''bad rc file'') :: int discovery)
       \<lparr> loggingService = [] \<rparr> ''a.js'' ''babel'' Map.empty ''2.3.1'' Map.empty None
     = (Inr \<lparr> options = None, error = Some (JsError ''SyntaxError'' ''bad rc file'') \<rparr>,
        \<lparr> loggingService = [] \<rparr>)"
  using getPrettierOptions_discovery_failed
          [of "discovery_fails (JsError ''SyntaxError'' ''bad rc file'') :: int discovery"
              "''a.js''" Map.empty "JsError ''SyntaxError'' ''bad rc file''"
              "\<lparr> loggingService = [] \<rparr>" "''babel''" Map.empty "''2.3.1''" None]
  by simp

text \<open>
  Claim C10. The typed-error contract of \<^verbatim>\<open>getPrettierOptions\<close> needs a version string
  that is a semantic version. For a string that is not one, the comparison of line 39
  throws and the call rejects with that exception: it is not turned into an
  \<^verbatim>\<open>{ error }\<close> result. (The comparison is reached when discovery did not fail; when
  discovery failed, the call has returned at line 32.)
\<close>

theorem getPrettierOptions_invalid_version:
  assumes "SemVer_new v = Inl e"
  shows "getPrettierOptions d this fileName parser vs v rco rfo
           = (case d fileName (Some rco) of
                Inl de \<Rightarrow> (Inr \<lparr> options = None, error = Some de \<rparr>, this)
              | Inr c \<Rightarrow> (Inl e, this))"
proof (cases "d fileName (Some rco)")
  case (Inl de)
  then show ?thesis
    using getPrettierOptions_discovery_failed [of d fileName rco de this parser vs v rfo]
    by simp
next
  case (Inr c)
  then show ?thesis
    using getPrettierOptions_comparison_throws [of d fileName rco c v e this parser vs rfo]
          semver_gte_invalid [OF assms, of "''2.0.0''"]
    by simp
qed

theorem getPrettierOptions_invalid_version_witness:
  "getPrettierOptions (discovery_returns (Some [''semi'' \<mapsto> JBool False]) :: int discovery)
       \<lparr> loggingService = [] \<rparr> ''a.js'' ''babel'' Map.empty ''banana'' Map.empty None
     = (Inl (JsError ''TypeError'' ''Invalid Version: banana''), \<lparr> loggingService = [] \<rparr>)"
  using getPrettierOptions_invalid_version
          [OF SemVer_new_banana,
           of "discovery_returns (Some [''semi'' \<mapsto> JBool False]) :: int discovery"
              "\<lparr> loggingService = [] \<rparr>" "''a.js''" "''babel''" Map.empty Map.empty None]
  by simp

section \<open>What the store operations leave alone\<close>

lemma write_prop_frame:
  "next_addr (write_prop a k v s) = next_addr s"
  "b \<noteq> a \<Longrightarrow> objects (write_prop a k v s) b = objects s b"
  by (simp_all add: write_prop_def)

lemma copy_prop_frame:
  "next_addr (copy_prop dst src k s) = next_addr s"
  "b \<noteq> dst \<Longrightarrow> objects (copy_prop dst src k s) b = objects s b"
  by (simp_all add: copy_prop_def write_prop_frame)

lemma copy_prop_gated_frame:
  "next_addr (copy_prop_gated dst src k g fixed s) = next_addr s"
  "b \<noteq> dst \<Longrightarrow> objects (copy_prop_gated dst src k g fixed s) b = objects s b"
  by (simp_all add: copy_prop_gated_def write_prop_frame)

lemma spread_into_frame:
  "next_addr (spread_into dst src s) = next_addr s"
  "b \<noteq> dst \<Longrightarrow> objects (spread_into dst src s) b = objects s b"
  by (simp_all add: spread_into_def)

lemma assign_vsOpts_st_frame:
  "next_addr (assign_vsOpts_st dst src g s) = next_addr s"
  "b \<noteq> dst \<Longrightarrow> objects (assign_vsOpts_st dst src g s) b = objects s b"
  by (simp_all add: assign_vsOpts_st_def Let_def copy_prop_frame copy_prop_gated_frame)

lemma unchanged_below_refl: "unchanged_below (next_addr s) s s"
  by (simp add: unchanged_below_def)

lemma unchanged_below_alloc:
  assumes "unchanged_below n s0 s" and "alloc obj s = (a, s')"
  shows "unchanged_below n s0 s'" and "n \<le> a" and "next_addr s < next_addr s'"
  using assms by (auto simp: unchanged_below_def alloc_def)

lemma unchanged_below_maybe_alloc:
  assumes "unchanged_below n s0 s"
    and "(case x of None \<Rightarrow> alloc obj s | Some a \<Rightarrow> (a, s)) = (l, s')"
  shows "unchanged_below n s0 s'" and "next_addr s \<le> next_addr s'"
  using assms by (cases x; auto simp: unchanged_below_def alloc_def)+

lemma unchanged_below_spread_into:
  assumes "unchanged_below n s0 s" and "n \<le> dst"
  shows "unchanged_below n s0 (spread_into dst src s)"
  using assms by (simp add: unchanged_below_def spread_into_frame)

lemma unchanged_below_assign_vsOpts_st:
  assumes "unchanged_below n s0 s" and "n \<le> dst"
  shows "unchanged_below n s0 (assign_vsOpts_st dst src g s)"
  using assms by (simp add: unchanged_below_def assign_vsOpts_st_frame)

lemma build_options_frame:
  assumes "build_options vo fileName parser rfo co s = (opts, s')"
  shows "opts = next_addr s" and "unchanged_below (next_addr s) s s'"
    and "objects s' opts \<noteq> None" and "next_addr s < next_addr s'"
proof -
  let ?n = "next_addr s"
  obtain p sa where a0: "alloc Map.empty s = (p, sa)"
    by fastforce
  obtain l1 sb where a1: "(case vo of None \<Rightarrow> alloc Map.empty sa | Some a \<Rightarrow> (a, sa)) = (l1, sb)"
    by fastforce
  let ?sc = "spread_into p l1 sb"
  obtain l2 sd
    where a2: "alloc [''filepath'' \<mapsto> JStr fileName, ''parser'' \<mapsto> JStr parser] ?sc = (l2, sd)"
    by fastforce
  let ?se = "spread_into p l2 sd"
  obtain l3 sf where a3: "(case rfo of None \<Rightarrow> alloc Map.empty ?se | Some a \<Rightarrow> (a, ?se)) = (l3, sf)"
    by fastforce
  let ?sg = "spread_into p l3 sf"
  obtain l4 sh where a4: "(case co of None \<Rightarrow> alloc Map.empty ?sg | Some a \<Rightarrow> (a, ?sg)) = (l4, sh)"
    by fastforce
  let ?si = "spread_into p l4 sh"
  have "build_options vo fileName parser rfo co s = (p, ?si)"
    by (simp add: build_options_def Let_def a0 a1 a2 a3 a4)
  with assms have eq: "opts = p" "s' = ?si"
    by auto
  have p: "p = ?n" and lt: "?n < next_addr sa"
    using a0 by (auto simp: alloc_def)
  have ua: "unchanged_below ?n s sa"
    using unchanged_below_refl a0 by (rule unchanged_below_alloc)
  have ub: "unchanged_below ?n s sb" and lb: "next_addr sa \<le> next_addr sb"
    using ua a1 by (rule unchanged_below_maybe_alloc)+
  have uc: "unchanged_below ?n s ?sc"
    using ub by (rule unchanged_below_spread_into) (simp add: p)
  have ud: "unchanged_below ?n s sd"
    using uc a2 by (rule unchanged_below_alloc)
  have ue: "unchanged_below ?n s ?se"
    using ud by (rule unchanged_below_spread_into) (simp add: p)
  have uf: "unchanged_below ?n s sf"
    using ue a3 by (rule unchanged_below_maybe_alloc)
  have ug: "unchanged_below ?n s ?sg"
    using uf by (rule unchanged_below_spread_into) (simp add: p)
  have uh: "unchanged_below ?n s sh"
    using ug a4 by (rule unchanged_below_maybe_alloc)
  have ui: "unchanged_below ?n s ?si"
    using uh by (rule unchanged_below_spread_into) (simp add: p)
  have "next_addr sb = next_addr ?sc"
    by (simp add: spread_into_frame)
  moreover have "next_addr ?sc < next_addr sd"
    using uc a2 by (rule unchanged_below_alloc)
  moreover have "next_addr sd = next_addr ?se"
    by (simp add: spread_into_frame)
  moreover have "next_addr ?se \<le> next_addr sf"
    using ue a3 by (rule unchanged_below_maybe_alloc)
  moreover have "next_addr sf = next_addr ?sg"
    by (simp add: spread_into_frame)
  moreover have "next_addr ?sg \<le> next_addr sh"
    using ug a4 by (rule unchanged_below_maybe_alloc)
  moreover have "next_addr sh = next_addr ?si"
    by (simp add: spread_into_frame)
  ultimately have "?n < next_addr ?si"
    using lt lb by linarith
  moreover have "objects ?si p \<noteq> None"
    by (simp add: spread_into_def)
  ultimately show "opts = next_addr s" and "unchanged_below (next_addr s) s s'"
    and "objects s' opts \<noteq> None" and "next_addr s < next_addr s'"
    using eq p ui by simp_all
qed

lemma unchanged_below_trans:
  assumes "unchanged_below n s0 s" and "unchanged_below (next_addr s) s s'"
  shows "unchanged_below n s0 s'"
  using assms by (auto simp: unchanged_below_def)

text \<open>
  The store after \<^verbatim>\<open>getPrettierOptions\<close>, against the store that discovery handed
  back: nothing that existed is changed, and returned options are a new object.
\<close>

lemma getPrettierOptions_st_unchanged:
  assumes call: "getPrettierOptions_st d this fileName parser vsCodeConfig v rco rfo s
                   = (out, this', s')"
    and disc: "d fileName (Some rco) s = (dout, s1)"
  shows "unchanged_below (next_addr s1) s1 s'"
    and "\<And>res opts. out = Inr res \<Longrightarrow> options res = Some opts
            \<Longrightarrow> next_addr s1 \<le> opts \<and> opts < next_addr s' \<and> objects s' opts \<noteq> None"
proof -
  let ?n = "next_addr s1"
  obtain vsOpts s2 where a: "alloc Map.empty s1 = (vsOpts, s2)"
    by fastforce
  have vs: "?n \<le> vsOpts" and u2: "unchanged_below ?n s1 s2"
    using unchanged_below_refl a by (rule unchanged_below_alloc)+
  have n2: "?n < next_addr s2"
    using unchanged_below_refl a by (rule unchanged_below_alloc)
  have "unchanged_below ?n s1 s'
        \<and> (\<forall>res opts. out = Inr res \<longrightarrow> options res = Some opts
              \<longrightarrow> ?n \<le> opts \<and> opts < next_addr s' \<and> objects s' opts \<noteq> None)"
  proof (cases dout)
    case (Inl e)
    with call disc show ?thesis
      by (auto simp: getPrettierOptions_st_def resolveConfig_st_def unchanged_below_refl)
  next
    case (Inr c)
    show ?thesis
    proof (cases "semver_gte v ''2.0.0''")
      case (Inl e)
      with call disc Inr a u2 show ?thesis
        by (auto simp: getPrettierOptions_st_def resolveConfig_st_def)
    next
      case b: (Inr b)
      let ?s3 = "if c = None then assign_vsOpts_st vsOpts vsCodeConfig b s2 else s2"
      obtain opts s4
        where bo: "build_options (if c = None then Some vsOpts else None) fileName parser rfo c ?s3
                     = (opts, s4)"
        by fastforce
      have u3: "unchanged_below ?n s1 ?s3"
        using u2 vs by (simp add: unchanged_below_assign_vsOpts_st)
      have n3: "next_addr ?s3 = next_addr s2"
        by (simp add: assign_vsOpts_st_frame)
      have u4: "unchanged_below ?n s1 s4"
        using u3 build_options_frame(2) [OF bo] by (rule unchanged_below_trans)
      have o: "opts = next_addr ?s3" "objects s4 opts \<noteq> None" "next_addr ?s3 < next_addr s4"
        using build_options_frame [OF bo] by simp_all
      have "out = Inr \<lparr> options = Some opts, error = None \<rparr>" and "s' = s4"
        using call disc Inr b a bo
        by (auto simp: getPrettierOptions_st_def resolveConfig_st_def Let_def)
      with u4 o n2 n3 show ?thesis
        by auto
    qed
  qed
  then show "unchanged_below (next_addr s1) s1 s'"
    and "\<And>res opts. out = Inr res \<Longrightarrow> options res = Some opts
            \<Longrightarrow> next_addr s1 \<le> opts \<and> opts < next_addr s' \<and> objects s' opts \<noteq> None"
    by simp_all
qed

text \<open>
  Claim C9. \<^verbatim>\<open>getPrettierOptions\<close> writes to no object that exists when discovery has
  returned: every such object, the editor configuration, the range options, the discovery
  options and the discovered configuration among them, is at the end of the call what it
  was then. So an argument that discovery, which is not the resolver's code, left as it
  was before the call is unchanged after the call. The options that are returned are a
  newly allocated object.
\<close>

theorem getPrettierOptions_st_frame:
  assumes "getPrettierOptions_st d this fileName parser vsCodeConfig v rco rfo s = (out, this', s')"
    and "d fileName (Some rco) s = (dout, s1)"
  shows "(\<forall>a<next_addr s1.
            objects s' a = objects s1 a
            \<and> (objects s1 a = objects s a \<longrightarrow> objects s' a = objects s a))
         \<and> (\<forall>res opts. out = Inr res \<and> options res = Some opts
               \<longrightarrow> next_addr s1 \<le> opts \<and> opts < next_addr s' \<and> objects s' opts \<noteq> None)"
  using getPrettierOptions_st_unchanged [OF assms]
  by (simp add: unchanged_below_def)

theorem getPrettierOptions_st_frame_witness:
  "\<exists>res opts this' s'.
     getPrettierOptions_st (store_discovery_returns None) \<lparr> loggingService = [] \<rparr> ''a.js'' ''babel''
         0 ''1.19.0'' 1 (Some 2)
         \<lparr> objects = [0 \<mapsto> [''tabWidth'' \<mapsto> JNum (2 :: int)],
                       1 \<mapsto> [''useCache'' \<mapsto> JBool False],
                       2 \<mapsto> [''rangeStart'' \<mapsto> JNum 0, ''rangeEnd'' \<mapsto> JNum 10]],
            next_addr = 3 \<rparr>
       = (Inr res, this', s')
     \<and> options res = Some opts
     \<and> 3 \<le> opts
     \<and> objects s' opts \<noteq> None
     \<and> objects s' 0 = Some [''tabWidth'' \<mapsto> JNum 2]
     \<and> objects s' 1 = Some [''useCache'' \<mapsto> JBool False]
     \<and> objects s' 2 = Some [''rangeStart'' \<mapsto> JNum 0, ''rangeEnd'' \<mapsto> JNum 10]"
proof -
  let ?d = "store_discovery_returns None :: int store_discovery"
  let ?s = "\<lparr> objects = [0 \<mapsto> [''tabWidth'' \<mapsto> JNum (2 :: int)],
                         1 \<mapsto> [''useCache'' \<mapsto> JBool False],
                         2 \<mapsto> [''rangeStart'' \<mapsto> JNum 0, ''rangeEnd'' \<mapsto> JNum 10]],
              next_addr = 3 \<rparr>"
  let ?call = "getPrettierOptions_st ?d \<lparr> loggingService = [] \<rparr> ''a.js'' ''babel''
                 0 ''1.19.0'' 1 (Some 2) ?s"
  obtain out this' s' where call: "?call = (out, this', s')"
    by (rule prod_cases3)
  have "\<exists>opts. fst ?call = Inr \<lparr> options = Some opts, error = None \<rparr>"
    by (simp add: getPrettierOptions_st_def resolveConfig_st_def semver_gte_1_19_0 Let_def
          split_def)
  with call obtain opts where out: "out = Inr \<lparr> options = Some opts, error = None \<rparr>"
    by auto
  have disc: "?d ''a.js'' (Some 1) ?s = (Inr None, ?s)"
    by simp
  from getPrettierOptions_st_frame [OF call disc] out
  have "3 \<le> opts" and "objects s' opts \<noteq> None"
    and "objects s' 0 = Some [''tabWidth'' \<mapsto> JNum 2]"
    and "objects s' 1 = Some [''useCache'' \<mapsto> JBool False]"
    and "objects s' 2 = Some [''rangeStart'' \<mapsto> JNum 0, ''rangeEnd'' \<mapsto> JNum 10]"
    by simp_all
  with call out show ?thesis
    by simp
qed

section \<open>The store model computes what the value model computes\<close>

lemma deref_copy_prop:
  assumes "src \<noteq> dst"
  shows "deref (copy_prop dst src k s) dst = set_prop (deref s dst) k (get_prop (deref s src) k)"
    and "deref (copy_prop dst src k s) src = deref s src"
  using assms by (simp_all add: copy_prop_def write_prop_def deref_def)

lemma deref_copy_prop_gated:
  assumes "src \<noteq> dst"
  shows "deref (copy_prop_gated dst src k g fixed s) dst
           = set_prop (deref s dst) k (if g then get_prop (deref s src) k else JStr fixed)"
    and "deref (copy_prop_gated dst src k g fixed s) src = deref s src"
  using assms by (simp_all add: copy_prop_gated_def write_prop_def deref_def)

lemma deref_assign_vsOpts_st:
  assumes "src \<noteq> dst"
  shows "deref (assign_vsOpts_st dst src g s) dst = assign_vsOpts (deref s dst) (deref s src) g"
  using assms
  by (simp add: assign_vsOpts_st_def assign_vsOpts_def Let_def deref_copy_prop
        deref_copy_prop_gated)

lemma deref_unchanged_below:
  assumes "unchanged_below n s s'" and "a < n"
  shows "deref s' a = deref s a"
  using assms by (simp add: unchanged_below_def deref_def)

lemma deref_spread_into:
  "deref (spread_into dst src s) dst = spread (deref s dst) (deref s src)"
  by (simp add: spread_into_def deref_def)

lemma deref_alloc:
  assumes "alloc obj s = (l, s')"
  shows "deref s' l = obj" and "\<And>b. b < next_addr s \<Longrightarrow> deref s' b = deref s b"
  using assms by (auto simp: alloc_def deref_def)

lemma deref_maybe_alloc:
  assumes "(case x of None \<Rightarrow> alloc obj s | Some a \<Rightarrow> (a, s)) = (l, s')"
  shows "deref s' l = (case x of None \<Rightarrow> obj | Some a \<Rightarrow> deref s a)"
    and "\<And>b. b < next_addr s \<Longrightarrow> deref s' b = deref s b"
  using assms by (cases x; auto simp: alloc_def deref_def)+

lemma build_options_deref:
  assumes bo: "build_options vo fileName parser rfo co s = (opts, s')"
    and old: "\<forall>a \<in> set_option vo \<union> set_option rfo \<union> set_option co. a < next_addr s"
  shows "deref s' opts
           = (case vo of None \<Rightarrow> Map.empty | Some a \<Rightarrow> deref s a)
             ++ [''filepath'' \<mapsto> JStr fileName, ''parser'' \<mapsto> JStr parser]
             ++ (case rfo of None \<Rightarrow> Map.empty | Some a \<Rightarrow> deref s a)
             ++ (case co of None \<Rightarrow> Map.empty | Some a \<Rightarrow> deref s a)"
proof -
  let ?n = "next_addr s"
  let ?lit = "[''filepath'' \<mapsto> JStr fileName, ''parser'' \<mapsto> JStr parser]"
  obtain p sa where a0: "alloc Map.empty s = (p, sa)"
    by fastforce
  obtain l1 sb where a1: "(case vo of None \<Rightarrow> alloc Map.empty sa | Some a \<Rightarrow> (a, sa)) = (l1, sb)"
    by fastforce
  let ?sc = "spread_into p l1 sb"
  obtain l2 sd where a2: "alloc ?lit ?sc = (l2, sd)"
    by fastforce
  let ?se = "spread_into p l2 sd"
  obtain l3 sf where a3: "(case rfo of None \<Rightarrow> alloc Map.empty ?se | Some a \<Rightarrow> (a, ?se)) = (l3, sf)"
    by fastforce
  let ?sg = "spread_into p l3 sf"
  obtain l4 sh where a4: "(case co of None \<Rightarrow> alloc Map.empty ?sg | Some a \<Rightarrow> (a, ?sg)) = (l4, sh)"
    by fastforce
  let ?si = "spread_into p l4 sh"
  have "build_options vo fileName parser rfo co s = (p, ?si)"
    by (simp add: build_options_def Let_def a0 a1 a2 a3 a4)
  with bo have eq: "opts = p" "s' = ?si"
    by auto
  have p: "p = ?n" and na: "next_addr sa = Suc ?n"
    using a0 by (auto simp: alloc_def)
  have ua: "unchanged_below ?n s sa"
    using unchanged_below_refl a0 by (rule unchanged_below_alloc)
  have ub: "unchanged_below ?n s sb" and nb: "next_addr sa \<le> next_addr sb"
    using ua a1 by (rule unchanged_below_maybe_alloc)+
  have uc: "unchanged_below ?n s ?sc"
    using ub by (rule unchanged_below_spread_into) (simp add: p)
  have ud: "unchanged_below ?n s sd" and nd: "next_addr ?sc < next_addr sd"
    using uc a2 by (rule unchanged_below_alloc)+
  have ue: "unchanged_below ?n s ?se"
    using ud by (rule unchanged_below_spread_into) (simp add: p)
  have uf: "unchanged_below ?n s sf" and nf: "next_addr ?se \<le> next_addr sf"
    using ue a3 by (rule unchanged_below_maybe_alloc)+
  have ug: "unchanged_below ?n s ?sg"
    using uf by (rule unchanged_below_spread_into) (simp add: p)
  have pa: "p < next_addr sa"
    by (simp add: p na)
  have pc: "p < next_addr ?sc"
    using pa nb by (simp add: spread_into_frame)
  have pe: "p < next_addr ?se"
    using pc nd by (simp add: spread_into_frame)
  have pg: "p < next_addr ?sg"
    using pe nf by (simp add: spread_into_frame)
  have v1: "(case vo of None \<Rightarrow> Map.empty | Some a \<Rightarrow> deref sa a)
              = (case vo of None \<Rightarrow> Map.empty | Some a \<Rightarrow> deref s a)"
    using old ua by (cases vo) (simp_all add: deref_unchanged_below)
  have v3: "(case rfo of None \<Rightarrow> Map.empty | Some a \<Rightarrow> deref ?se a)
              = (case rfo of None \<Rightarrow> Map.empty | Some a \<Rightarrow> deref s a)"
    using old ue by (cases rfo) (simp_all add: deref_unchanged_below)
  have v4: "(case co of None \<Rightarrow> Map.empty | Some a \<Rightarrow> deref ?sg a)
              = (case co of None \<Rightarrow> Map.empty | Some a \<Rightarrow> deref s a)"
    using old ug by (cases co) (simp_all add: deref_unchanged_below)
  have "deref sa p = Map.empty"
    using a0 by (rule deref_alloc)
  then have "deref sb p = Map.empty"
    using deref_maybe_alloc(2) [OF a1 pa] by simp
  then have c: "deref ?sc p = (case vo of None \<Rightarrow> Map.empty | Some a \<Rightarrow> deref s a)"
    using deref_maybe_alloc(1) [OF a1] v1 by (simp add: deref_spread_into spread_def)
  have "deref sd p = deref ?sc p" and "deref sd l2 = ?lit"
    using deref_alloc [OF a2] pc by simp_all
  with c have e: "deref ?se p = (case vo of None \<Rightarrow> Map.empty | Some a \<Rightarrow> deref s a) ++ ?lit"
    by (simp add: deref_spread_into spread_def)
  have "deref sf p = deref ?se p"
    and "deref sf l3 = (case rfo of None \<Rightarrow> Map.empty | Some a \<Rightarrow> deref ?se a)"
    using deref_maybe_alloc [OF a3] pe by simp_all
  with e v3 have g: "deref ?sg p
      = (case vo of None \<Rightarrow> Map.empty | Some a \<Rightarrow> deref s a) ++ ?lit
        ++ (case rfo of None \<Rightarrow> Map.empty | Some a \<Rightarrow> deref s a)"
    by (simp add: deref_spread_into spread_def)
  have "deref sh p = deref ?sg p"
    and "deref sh l4 = (case co of None \<Rightarrow> Map.empty | Some a \<Rightarrow> deref ?sg a)"
    using deref_maybe_alloc [OF a4] pg by simp_all
  with g v4 have "deref ?si p
      = (case vo of None \<Rightarrow> Map.empty | Some a \<Rightarrow> deref s a) ++ ?lit
        ++ (case rfo of None \<Rightarrow> Map.empty | Some a \<Rightarrow> deref s a)
        ++ (case co of None \<Rightarrow> Map.empty | Some a \<Rightarrow> deref s a)"
    by (simp add: deref_spread_into spread_def)
  with eq show ?thesis
    by simp
qed

text \<open>
  On arguments that exist in the store, the call on the store returns what the call on
  values returns for the objects at those addresses, and logs the same.
\<close>

lemma getPrettierOptions_st_refines:
  assumes disc: "d fileName (Some rco) s = (dout, s1)"
    and disc': "d' fileName (Some rco') = map_sum id (map_option (deref s1)) dout"
    and va: "vsCodeConfig < next_addr s1"
    and rf: "\<forall>a \<in> set_option rfo. a < next_addr s1"
    and dc: "\<forall>c. dout = Inr (Some c) \<longrightarrow> c < next_addr s1"
    and call: "getPrettierOptions_st d this fileName parser vsCodeConfig v rco rfo s
                 = (out, this', s')"
  shows "getPrettierOptions d' this fileName parser (deref s1 vsCodeConfig) v rco'
             (map_option (deref s1) rfo)
           = (map_sum id
                (\<lambda>res. \<lparr> options = map_option (deref s') (options res),
                         error = PrettierOptionsResult.error res \<rparr>) out,
              this')"
proof (cases dout)
  case (Inl e)
  with call disc have "out = Inr \<lparr> options = None, error = Some e \<rparr>" and "this' = this"
    by (auto simp: getPrettierOptions_st_def resolveConfig_st_def)
  moreover from Inl disc' have "d' fileName (Some rco') = Inl e"
    by simp
  ultimately show ?thesis
    using getPrettierOptions_discovery_failed
            [of d' fileName rco' e this parser "deref s1 vsCodeConfig" v
             "map_option (deref s1) rfo"]
    by simp
next
  case (Inr c)
  let ?n = "next_addr s1"
  let ?vs = "deref s1 vsCodeConfig"
  let ?lit = "[''filepath'' \<mapsto> JStr fileName, ''parser'' \<mapsto> JStr parser]"
  let ?rfo' = "map_option (deref s1) rfo"
  let ?range = "case ?rfo' of None \<Rightarrow> Map.empty | Some r \<Rightarrow> r"
  from Inr disc' have d': "d' fileName (Some rco') = Inr (map_option (deref s1) c)"
    by simp
  obtain vsOpts s2 where a: "alloc Map.empty s1 = (vsOpts, s2)"
    by fastforce
  have vo: "vsOpts = ?n" and n2: "next_addr s2 = Suc ?n"
    using a by (auto simp: alloc_def)
  have u2: "unchanged_below ?n s1 s2"
    using unchanged_below_refl a by (rule unchanged_below_alloc)
  show ?thesis
  proof (cases "semver_gte v ''2.0.0''")
    case (Inl e)
    with call disc Inr a have "out = Inl e" and "this' = this"
      by (auto simp: getPrettierOptions_st_def resolveConfig_st_def)
    then show ?thesis
      using getPrettierOptions_comparison_throws
              [of d' fileName rco' "map_option (deref s1) c" v e this parser ?vs ?rfo'] d' Inl
      by simp
  next
    case b: (Inr b)
    let ?s3 = "if c = None then assign_vsOpts_st vsOpts vsCodeConfig b s2 else s2"
    obtain opts s4
      where bo: "build_options (if c = None then Some vsOpts else None) fileName parser rfo c ?s3
                   = (opts, s4)"
      by fastforce
    have res: "out = Inr \<lparr> options = Some opts, error = None \<rparr>" "s' = s4"
      "this' = this \<lparr> loggingService := loggingService this
                         @ [if c = None then fallback_message else detected_message] \<rparr>"
      using call disc Inr b a bo
      by (auto simp: getPrettierOptions_st_def resolveConfig_st_def Let_def logInfo_def)
    have u3: "unchanged_below ?n s1 ?s3"
      using u2 by (simp add: unchanged_below_assign_vsOpts_st vo)
    have n3: "next_addr ?s3 = Suc ?n"
      by (simp add: assign_vsOpts_st_frame n2)
    have range: "(case rfo of None \<Rightarrow> Map.empty | Some a \<Rightarrow> deref ?s3 a) = ?range"
      using rf u3 by (cases rfo) (simp_all add: deref_unchanged_below)
    have rfo_old: "\<forall>a \<in> set_option rfo. a < next_addr ?s3"
      using rf n3 by (cases rfo) simp_all
    show ?thesis
    proof (cases c)
      case None
      have "deref s2 vsOpts = Map.empty" and "deref s2 vsCodeConfig = ?vs"
        using deref_alloc [OF a] va by simp_all
      then have "deref ?s3 vsOpts = assign_vsOpts Map.empty ?vs b"
        using None va vo by (simp add: deref_assign_vsOpts_st)
      moreover have "deref s4 opts
          = deref ?s3 vsOpts ++ ?lit
            ++ (case rfo of None \<Rightarrow> Map.empty | Some a \<Rightarrow> deref ?s3 a) ++ Map.empty"
        using build_options_deref [OF bo] rfo_old None n3 vo by simp
      ultimately have "deref s4 opts = assign_vsOpts Map.empty ?vs b ++ ?lit ++ ?range"
        using range by simp
      then show ?thesis
        using getPrettierOptions_fallback [of d' fileName rco' v b this parser ?vs ?rfo']
          d' b None res
        by simp
    next
      case (Some cfg)
      with dc Inr have cfg: "cfg < ?n"
        by simp
      then have "deref ?s3 cfg = deref s1 cfg"
        using u3 by (simp add: deref_unchanged_below)
      moreover have "deref s4 opts
          = Map.empty ++ ?lit
            ++ (case rfo of None \<Rightarrow> Map.empty | Some a \<Rightarrow> deref ?s3 a) ++ deref ?s3 cfg"
        using build_options_deref [OF bo] rfo_old Some n3 cfg by simp
      ultimately have "deref s4 opts = ?lit ++ ?range ++ deref s1 cfg"
        using range by simp
      then show ?thesis
        using getPrettierOptions_detected
                [of d' fileName rco' "deref s1 cfg" v b this parser ?vs ?rfo']
          d' b Some res
        by simp
    qed
  qed
qed

end
